theory Spec2Isabelle
  imports Complex_Main
begin

section \<open>Values and errors\<close>

text \<open>
  The arrays of the program hold 32-bit floats; this development computes with the real
  numbers instead, so rounding, infinities and NaN are outside the model. Integer arrays
  (\<open>int32\<close> spike indices, \<open>int64\<close> occupancy counters) are integers, the 32-bit store with
  its wrap-around written out; the refractory counters, floats that only ever hold whole
  numbers, are integers too. Every raise of the program is a value of \<open>py_error\<close>; an
  access outside an array, which the compiled kernels do not check, is \<open>OutOfBounds\<close>.
\<close>

datatype py_error =
    ZeroDivisionError
  | ValueError
  | IndexError
  | TypeError
  | AttributeError
  | UnboundLocalError
  | OutOfBounds
  | PyException

text \<open>Python's \<open>int(x)\<close> on a float: truncation towards zero.\<close>

definition py_int :: "real \<Rightarrow> int" where
  "py_int x = (if 0 \<le> x then \<lfloor>x\<rfloor> else \<lceil>x\<rceil>)"

text \<open>Storing an integer into an \<open>int32\<close> array keeps its low 32 bits, read as signed.\<close>

definition int32 :: "int \<Rightarrow> int" where
  "int32 k = (k + 2147483648) mod 4294967296 - 2147483648"

section \<open>The element-wise kernels\<close>

text \<open>
  The simulation applies scalar kernels, imported from the module \<open>numba_ufuncs\<close>, to
  every cell of the mesh. That module is not among the sources; each kernel is given here
  as the scalar function the specification describes.
\<close>

text \<open>Modelled from the spec: \<open>scalar_add\<close> is missing; the forcing is "a two-oscillator sum
  of sinusoids", so it adds its arguments.\<close>

definition scalar_add :: "real \<Rightarrow> real \<Rightarrow> real" where
  "scalar_add a b = a + b"

text \<open>Modelled from the spec: \<open>hadamard\<close> is missing; it scales an amplitude taken from the
  grid by the sinusoid of the step, an element-wise product.\<close>

definition hadamard :: "real \<Rightarrow> real \<Rightarrow> real" where
  "hadamard a b = a * b"

text \<open>Modelled from the spec: \<open>condit_add\<close> is missing; "for cells currently spiking, add a
  fixed jump", so it adds the increment where the condition holds and keeps the entry
  elsewhere.\<close>

definition condit_add :: "'a::plus \<Rightarrow> bool \<Rightarrow> 'a \<Rightarrow> 'a" where
  "condit_add a c v = (if c then a + v else a)"

text \<open>Modelled from the spec: \<open>condit_assign_bool\<close> is missing; it "updates the
  spiking-state flag" where the condition holds.\<close>

definition condit_assign_bool :: "bool \<Rightarrow> bool \<Rightarrow> bool \<Rightarrow> bool" where
  "condit_assign_bool a c v = (if c then v else a)"

text \<open>Modelled from the spec: \<open>condit_assign_num\<close> is missing; a cell is "clamped to
  \<open>spike_V\<close>", "reset to \<open>rest_V\<close>", its counter "resets to 0" where the condition
  holds.\<close>

definition condit_assign_num :: "'a \<Rightarrow> bool \<Rightarrow> 'a \<Rightarrow> 'a" where
  "condit_assign_num a c v = (if c then v else a)"

text \<open>Modelled from the spec: \<open>ornstein_uhlenbeck\<close> is missing; "one Euler-Maruyama step of
  a mean-reverting process: relax toward the configured mean at a rate set by the noise
  time constant, and add a stochastic increment scaled by the configured volatility and
  \<open>sqrt(dt * time_constant)\<close>" (the caller passes that scale as \<open>weiner_coefficient\<close>).\<close>

definition ornstein_uhlenbeck :: "real \<Rightarrow> real \<Rightarrow> real \<Rightarrow> real \<Rightarrow> real \<Rightarrow> real \<Rightarrow> real" where
  "ornstein_uhlenbeck x mu tau dt weiner_coefficient r =
     x + dt * (mu - x) / tau + weiner_coefficient * r"

text \<open>Modelled from the spec: \<open>subthresh_SASLIF_integrate\<close> is missing; "for non-spiking
  cells, integrate voltage by a forward-Euler step of a leaky dynamic: move \<open>V\<close> toward
  \<open>rest_V\<close> at a rate set by the membrane time constant, and add the forcing minus the
  adaptation current plus the noise term". Other cells keep their voltage.\<close>

definition subthresh_SASLIF_integrate ::
  "real \<Rightarrow> bool \<Rightarrow> real \<Rightarrow> real \<Rightarrow> real \<Rightarrow> real \<Rightarrow> real \<Rightarrow> real \<Rightarrow> real" where
  "subthresh_SASLIF_integrate v c dt rest forcing w tau x =
     (if c then v + dt * ((rest - v) / tau + forcing - w + x) else v)"

text \<open>Modelled from the spec: \<open>integer_add\<close> is missing; the spec's "increment occupancy".\<close>

definition integer_add :: "int \<Rightarrow> int \<Rightarrow> int" where
  "integer_add a b = a + b"

text \<open>Modelled from the spec: \<open>stack_topography_flatten\<close> is missing; the log is
  "append-only", so the slot written is the cell's occupancy: the caller passes a vector of
  ones and the occupancy, and takes the result as the slot index.\<close>

definition stack_topography_flatten :: "int \<Rightarrow> int \<Rightarrow> int" where
  "stack_topography_flatten z h = z * h"

section \<open>The mesh simulation\<close>

record sim_config =
  theta_frequency :: real
  interference_frequency :: real
  simulation_duration :: real
  dt :: real
  neuron_threshold :: real
  neuron_time_constant :: real
  rest_V :: real
  spike_V :: real
  refractory_period_duration :: real
  adaptation_response_constant :: real
  adaptation_decay_constant :: real
  adaptation_time_constant :: real
  OU_sigma :: real
  OU_mu :: real
  OU_time_constant :: real

text \<open>
  The state arrays other than the voltage, cell by cell: one record holds the entries of
  \<open>xi\<close>, \<open>W\<close>, \<open>spike_state_matrix\<close>, \<open>refractory_period_matrix\<close>, \<open>spike_stack\<close> and
  \<open>stack_topography\<close> at one mesh coordinate.
\<close>

record neuron =
  xi_of :: real
  W_of :: real
  spike_state_of :: bool
  refractory_of :: int
  spike_stack_of :: "int list"
  stack_topography_of :: int

definition stack_height :: nat where
  "stack_height = 5000"

text \<open>
  The body of the loop "Log all spikes for this index" at one coordinate: the slot is read
  from the occupancy, the step is stored there and the occupancy is incremented. No test
  on the occupancy precedes the store. A negative index counts from the end of the column.
\<close>

definition log_spike :: "nat \<Rightarrow> int list \<Rightarrow> int \<Rightarrow> py_error + (int list \<times> int)" where
  "log_spike step stack topo =
     (let z = stack_topography_flatten 1 topo; n = int (length stack) in
      if 0 \<le> z \<and> z < n then Inr (stack[nat z := int32 (int step)], integer_add topo 1)
      else if - n \<le> z \<and> z < 0 then Inr (stack[nat (n + z) := int32 (int step)], integer_add topo 1)
      else Inl OutOfBounds)"

text \<open>The neuron state before the first step, from the constant initial voltage.\<close>

definition init_neuron :: "sim_config \<Rightarrow> int \<Rightarrow> neuron" where
  "init_neuron cfg refractory_period_length =
     (let v0 = hadamard 1 (rest_V cfg);
          subthreshold = (v0 < neuron_threshold cfg);
          suprathreshold = (\<not> subthreshold);
          s1 = condit_assign_bool False suprathreshold True;
          s2 = condit_assign_bool s1 subthreshold False;
          r1 = condit_add (0::int) (s2 \<and> 0 \<le> refractory_period_length) 1;
          r2 = condit_assign_num r1 (r1 > refractory_period_length) 0
      in \<lparr> xi_of = 0, W_of = 0, spike_state_of = s2, refractory_of = r2,
           spike_stack_of = replicate stack_height 0, stack_topography_of = 0 \<rparr>)"

text \<open>
  One pass of the loop body at one coordinate, from the adaptation update to the increment
  of the refractory counter. It takes the forcing and the random draw of the step and the
  voltage of the previous step, and returns the new voltage with the new state. The two
  execution modes share this text word for word.
\<close>

definition cell_update ::
  "sim_config \<Rightarrow> int \<Rightarrow> real \<Rightarrow> real \<Rightarrow> real \<Rightarrow> real \<Rightarrow> nat \<Rightarrow> real \<Rightarrow> neuron
     \<Rightarrow> py_error + (real \<times> neuron)" where
  "cell_update cfg refractory_period_length adaptation_decay_rate weiner_coefficient
       forcing random_number step v_prev c =
     (let w1 = condit_add (W_of c) (spike_state_of c) (dt cfg * adaptation_response_constant cfg);
          w2 = condit_add w1 True ((- dt cfg * adaptation_decay_rate) * w1);
          x = ornstein_uhlenbeck (xi_of c) (OU_mu cfg) (OU_time_constant cfg) (dt cfg)
                weiner_coefficient random_number;
          v1 = subthresh_SASLIF_integrate v_prev (\<not> spike_state_of c) (dt cfg) (rest_V cfg)
                forcing w2 (neuron_time_constant cfg) x;
          v2 = condit_assign_num v1
                (spike_state_of c \<and> refractory_of c \<le> refractory_period_length) (spike_V cfg);
          v3 = condit_assign_num v2
                (spike_state_of c \<and> refractory_of c > refractory_period_length) (rest_V cfg);
          r1 = condit_assign_num (refractory_of c)
                (refractory_of c > refractory_period_length) 0;
          subthreshold = (v3 < neuron_threshold cfg);
          suprathreshold = (\<not> subthreshold);
          s1 = condit_assign_bool (spike_state_of c) suprathreshold True;
          s2 = condit_assign_bool s1 subthreshold False;
          logged = (if s2 = True \<and> r1 = 0
                    then log_spike step (spike_stack_of c) (stack_topography_of c)
                    else Inr (spike_stack_of c, stack_topography_of c))
      in case logged of
           Inl e \<Rightarrow> Inl e
         | Inr (stack, topo) \<Rightarrow>
             Inr (v3, \<lparr> xi_of = x, W_of = w2, spike_state_of = s2,
                        refractory_of = condit_add r1 (s2 \<and> r1 \<le> refractory_period_length) 1,
                        spike_stack_of = stack, stack_topography_of = topo \<rparr>))"

text \<open>The forcing of one cell at one step, from its pair of amplitudes.\<close>

definition forcing_at :: "sim_config \<Rightarrow> real \<times> real \<Rightarrow> nat \<Rightarrow> real" where
  "forcing_at cfg amplitudes step =
     (let theta = hadamard (fst amplitudes)
                    (sin (2 * pi * theta_frequency cfg / 1000 * dt cfg * real step));
          interference = hadamard (snd amplitudes)
                    (sin (2 * pi * interference_frequency cfg / 1000 * dt cfg * real step))
      in scalar_add theta interference)"

text \<open>
  A mesh is a list of rows. \<open>collect\<close> gathers the outcomes of the cells of a row (and of
  the rows of a mesh): the first error, if any cell failed.
\<close>

fun collect :: "('e + 'a) list \<Rightarrow> 'e + 'a list" where
  "collect [] = Inr []"
| "collect (x # xs) =
     (case x of
        Inl e \<Rightarrow> Inl e
      | Inr a \<Rightarrow> (case collect xs of Inl e \<Rightarrow> Inl e | Inr as \<Rightarrow> Inr (a # as)))"

definition mesh_map :: "nat \<Rightarrow> nat \<Rightarrow> (nat \<Rightarrow> nat \<Rightarrow> 'e + 'a) \<Rightarrow> 'e + 'a list list" where
  "mesh_map n1 n2 f = collect (map (\<lambda>i. collect (map (\<lambda>j. f i j) [0..<n2])) [0..<n1])"

text \<open>The time loop: the steps in order, stopping at the first error.\<close>

fun run_steps :: "(nat \<Rightarrow> 's \<Rightarrow> 'e + 's) \<Rightarrow> nat list \<Rightarrow> 's \<Rightarrow> 'e + 's" where
  "run_steps f [] s = Inr s"
| "run_steps f (k # ks) s = (case f k s of Inl e \<Rightarrow> Inl e | Inr s' \<Rightarrow> run_steps f ks s')"

text \<open>
  The random draws are an input: \<open>draws k i j\<close> is the entry at coordinate \<open>(i, j)\<close> of the
  \<open>k\<close>-th matrix the generator returns (counting from 0), whichever step asks for it.
\<close>

type_synonym draws = "nat \<Rightarrow> nat \<Rightarrow> nat \<Rightarrow> real"

text \<open>
  The amplitude mesh is combined element-wise with the state arrays of shape
  \<open>(subspace_1_size, subspace_2_size)\<close>: along each axis its extent is that of the state
  arrays, or 1, in which case its single entry serves every coordinate; with any other
  extent the kernel call raises.
\<close>

definition mesh_fits :: "'a list list \<Rightarrow> nat \<Rightarrow> nat \<Rightarrow> bool" where
  "mesh_fits mesh n1 n2 \<longleftrightarrow>
     (length mesh = n1 \<or> length mesh = 1) \<and>
     (list_all (\<lambda>row. length row = n2) mesh \<or> list_all (\<lambda>row. length row = 1) mesh)"

definition mesh_entry :: "'a list list \<Rightarrow> nat \<Rightarrow> nat \<Rightarrow> 'a" where
  "mesh_entry mesh i j =
     (let row = mesh ! (if length mesh = 1 then 0 else i)
      in row ! (if length row = 1 then 0 else j))"

text \<open>
  One step of the trace-preserving mode over the mesh. A cell is its voltage trace
  \<open>V[i, j, :]\<close> with its neuron state; the step reads \<open>V[i, j, step - 1]\<close> and writes
  \<open>V[i, j, step]\<close>. The loop starts at step 1, so the draw of step \<open>s\<close> is the draw
  number \<open>s - 1\<close>.
\<close>

definition trace_step ::
  "sim_config \<Rightarrow> (real \<times> real) list list \<Rightarrow> nat \<Rightarrow> nat \<Rightarrow> int \<Rightarrow> real \<Rightarrow> real \<Rightarrow> draws
     \<Rightarrow> nat \<Rightarrow> (real list \<times> neuron) list list \<Rightarrow> py_error + (real list \<times> neuron) list list" where
  "trace_step cfg mesh n1 n2 rpl adr wc rnd step st =
     (if \<not> mesh_fits mesh n1 n2 then Inl ValueError
      else mesh_map n1 n2 (\<lambda>i j.
        case cell_update cfg rpl adr wc (forcing_at cfg (mesh_entry mesh i j) step)
               (rnd (step - 1) i j) step (fst (st ! i ! j) ! (step - 1)) (snd (st ! i ! j)) of
          Inl e \<Rightarrow> Inl e
        | Inr (v, c) \<Rightarrow> Inr ((fst (st ! i ! j))[step := v], c)))"

text \<open>
  \<open>HPC_phi_6_sim_forcing_subspace\<close>: the trace-preserving mode. It returns the voltage
  traces and the spike stack. Before the loop it can fail: on a division by a zero \<open>dt\<close>
  or adaptation time constant, on a negative extent of the voltage array, on the read of
  \<open>V[:, :, 0]\<close> from an array without steps, and on the square root of a negative
  product, which has no real value.
\<close>

definition HPC_phi_6_sim_forcing_subspace ::
  "(real \<times> real) list list \<Rightarrow> nat \<Rightarrow> nat \<Rightarrow> sim_config \<Rightarrow> draws
     \<Rightarrow> py_error + (real list list list \<times> int list list list)" where
  "HPC_phi_6_sim_forcing_subspace forcing_amplitude_mesh subspace_1_size subspace_2_size cfg rnd =
     (if dt cfg = 0 then Inl ZeroDivisionError
      else
        let num_timesteps = py_int (simulation_duration cfg / dt cfg);
            refractory_period_length = py_int (refractory_period_duration cfg / dt cfg)
        in
        if num_timesteps < 0 then Inl ValueError
        else if num_timesteps = 0 then Inl OutOfBounds
        else if adaptation_time_constant cfg = 0 then Inl ZeroDivisionError
        else if dt cfg * OU_time_constant cfg < 0 then Inl ValueError
        else
          let adaptation_decay_rate = adaptation_decay_constant cfg / adaptation_time_constant cfg;
              weiner_coefficient = OU_sigma cfg * sqrt (dt cfg * OU_time_constant cfg);
              st0 = map (\<lambda>i. map (\<lambda>j.
                      (replicate (nat num_timesteps) (hadamard 1 (rest_V cfg)),
                       init_neuron cfg refractory_period_length)) [0..<subspace_2_size])
                    [0..<subspace_1_size]
          in
          case run_steps
                 (trace_step cfg forcing_amplitude_mesh subspace_1_size subspace_2_size
                    refractory_period_length adaptation_decay_rate weiner_coefficient rnd)
                 [1..<nat num_timesteps] st0 of
            Inl e \<Rightarrow> Inl e
          | Inr st \<Rightarrow> Inr (map (map fst) st, map (map (spike_stack_of \<circ> snd)) st))"

text \<open>
  One step of the trace-free mode. A cell is its current voltage with its neuron state.
  The loop starts at step 0, so the draw of step \<open>s\<close> is the draw number \<open>s\<close>.
\<close>

definition ARC_step ::
  "sim_config \<Rightarrow> (real \<times> real) list list \<Rightarrow> nat \<Rightarrow> nat \<Rightarrow> int \<Rightarrow> real \<Rightarrow> real \<Rightarrow> draws
     \<Rightarrow> nat \<Rightarrow> (real \<times> neuron) list list \<Rightarrow> py_error + (real \<times> neuron) list list" where
  "ARC_step cfg mesh n1 n2 rpl adr wc rnd step st =
     (if \<not> mesh_fits mesh n1 n2 then Inl ValueError
      else mesh_map n1 n2 (\<lambda>i j.
        cell_update cfg rpl adr wc (forcing_at cfg (mesh_entry mesh i j) step)
          (rnd step i j) step (fst (st ! i ! j)) (snd (st ! i ! j))))"

text \<open>
  \<open>HPC_phi_6_sim_forcing_subspace_ARC\<close>: the trace-free mode. It returns the spike stack.
  Its voltage array has no time axis, so a step count of zero or less only empties the
  loop.
\<close>

definition HPC_phi_6_sim_forcing_subspace_ARC ::
  "(real \<times> real) list list \<Rightarrow> nat \<Rightarrow> nat \<Rightarrow> sim_config \<Rightarrow> draws
     \<Rightarrow> py_error + int list list list" where
  "HPC_phi_6_sim_forcing_subspace_ARC forcing_amplitude_mesh subspace_1_size subspace_2_size cfg rnd =
     (if dt cfg = 0 then Inl ZeroDivisionError
      else
        let num_timesteps = py_int (simulation_duration cfg / dt cfg);
            refractory_period_length = py_int (refractory_period_duration cfg / dt cfg)
        in
        if adaptation_time_constant cfg = 0 then Inl ZeroDivisionError
        else if dt cfg * OU_time_constant cfg < 0 then Inl ValueError
        else
          let adaptation_decay_rate = adaptation_decay_constant cfg / adaptation_time_constant cfg;
              weiner_coefficient = OU_sigma cfg * sqrt (dt cfg * OU_time_constant cfg);
              st0 = map (\<lambda>i. map (\<lambda>j.
                      (hadamard 1 (rest_V cfg), init_neuron cfg refractory_period_length))
                      [0..<subspace_2_size])
                    [0..<subspace_1_size]
          in
          case run_steps
                 (ARC_step cfg forcing_amplitude_mesh subspace_1_size subspace_2_size
                    refractory_period_length adaptation_decay_rate weiner_coefficient rnd)
                 [0..<nat num_timesteps] st0 of
            Inl e \<Rightarrow> Inl e
          | Inr st \<Rightarrow> Inr (map (map (spike_stack_of \<circ> snd)) st))"

text \<open>
  The entry \<open>forcing[step]\<close> of the precomputed forcing series; the compiled kernels do not
  check the index.
\<close>

definition series_at :: "real list \<Rightarrow> nat \<Rightarrow> py_error + real" where
  "series_at series step =
     (if step < length series then Inr (series ! step) else Inl OutOfBounds)"

text \<open>
  The loop body of the neurodynamic kernels at one coordinate. It differs from that of the
  forcing kernels in the adaptation update: the jump is the cell's response constant times
  \<open>dt\<close>, the decay factor is the cell's decay constant, scaled before the loop.
\<close>

definition cell_update_neurodynamic ::
  "sim_config \<Rightarrow> int \<Rightarrow> real \<Rightarrow> real \<Rightarrow> real \<Rightarrow> real \<Rightarrow> real \<Rightarrow> nat \<Rightarrow> real \<Rightarrow> neuron
     \<Rightarrow> py_error + (real \<times> neuron)" where
  "cell_update_neurodynamic cfg refractory_period_length response_constant scaled_decay_constant
       weiner_coefficient forcing random_number step v_prev c =
     (let w1 = condit_add (W_of c) (spike_state_of c) (response_constant * dt cfg);
          w2 = condit_add w1 True (hadamard scaled_decay_constant w1);
          x = ornstein_uhlenbeck (xi_of c) (OU_mu cfg) (OU_time_constant cfg) (dt cfg)
                weiner_coefficient random_number;
          v1 = subthresh_SASLIF_integrate v_prev (\<not> spike_state_of c) (dt cfg) (rest_V cfg)
                forcing w2 (neuron_time_constant cfg) x;
          v2 = condit_assign_num v1
                (spike_state_of c \<and> refractory_of c \<le> refractory_period_length) (spike_V cfg);
          v3 = condit_assign_num v2
                (spike_state_of c \<and> refractory_of c > refractory_period_length) (rest_V cfg);
          r1 = condit_assign_num (refractory_of c)
                (refractory_of c > refractory_period_length) 0;
          subthreshold = (v3 < neuron_threshold cfg);
          suprathreshold = (\<not> subthreshold);
          s1 = condit_assign_bool (spike_state_of c) suprathreshold True;
          s2 = condit_assign_bool s1 subthreshold False;
          logged = (if s2 = True \<and> r1 = 0
                    then log_spike step (spike_stack_of c) (stack_topography_of c)
                    else Inr (spike_stack_of c, stack_topography_of c))
      in case logged of
           Inl e \<Rightarrow> Inl e
         | Inr (stack, topo) \<Rightarrow>
             Inr (v3, \<lparr> xi_of = x, W_of = w2, spike_state_of = s2,
                        refractory_of = condit_add r1 (s2 \<and> r1 \<le> refractory_period_length) 1,
                        spike_stack_of = stack, stack_topography_of = topo \<rparr>))"

text \<open>
  One step of the trace-preserving neurodynamic kernel, and the kernel
  \<open>HPC_phi_6_sim_neurodynamic_subspace\<close>. The mesh holds the response and decay constants
  of the cells; the forcing is a series shared by all cells.
\<close>

definition neurodynamic_trace_step ::
  "sim_config \<Rightarrow> real list \<Rightarrow> (real \<times> real) list list \<Rightarrow> nat \<Rightarrow> nat \<Rightarrow> int \<Rightarrow> real \<Rightarrow> real
     \<Rightarrow> draws \<Rightarrow> nat \<Rightarrow> (real list \<times> neuron) list list
     \<Rightarrow> py_error + (real list \<times> neuron) list list" where
  "neurodynamic_trace_step cfg forcing mesh n1 n2 rpl decay_scale wc rnd step st =
     (if \<not> mesh_fits mesh n1 n2 then Inl ValueError
      else case series_at forcing step of
        Inl e \<Rightarrow> Inl e
      | Inr f \<Rightarrow> mesh_map n1 n2 (\<lambda>i j.
          case cell_update_neurodynamic cfg rpl (fst (mesh_entry mesh i j))
                 (snd (mesh_entry mesh i j) * decay_scale) wc f
                 (rnd (step - 1) i j) step (fst (st ! i ! j) ! (step - 1)) (snd (st ! i ! j)) of
            Inl e \<Rightarrow> Inl e
          | Inr (v, c) \<Rightarrow> Inr ((fst (st ! i ! j))[step := v], c)))"

definition HPC_phi_6_sim_neurodynamic_subspace ::
  "real list \<Rightarrow> (real \<times> real) list list \<Rightarrow> nat \<Rightarrow> nat \<Rightarrow> sim_config \<Rightarrow> draws
     \<Rightarrow> py_error + (real list list list \<times> int list list list)" where
  "HPC_phi_6_sim_neurodynamic_subspace forcing neurodynamic_parameter_mesh
       subspace_1_size subspace_2_size cfg rnd =
     (if dt cfg = 0 then Inl ZeroDivisionError
      else
        let num_timesteps = py_int (simulation_duration cfg / dt cfg);
            refractory_period_length = py_int (refractory_period_duration cfg / dt cfg)
        in
        if num_timesteps < 0 then Inl ValueError
        else if num_timesteps = 0 then Inl OutOfBounds
        else if adaptation_time_constant cfg = 0 then Inl ZeroDivisionError
        else if dt cfg * OU_time_constant cfg < 0 then Inl ValueError
        else
          let decay_scale = (- dt cfg) / adaptation_time_constant cfg;
              weiner_coefficient = OU_sigma cfg * sqrt (dt cfg * OU_time_constant cfg);
              st0 = map (\<lambda>i. map (\<lambda>j.
                      (replicate (nat num_timesteps) (hadamard 1 (rest_V cfg)),
                       init_neuron cfg refractory_period_length)) [0..<subspace_2_size])
                    [0..<subspace_1_size]
          in
          case run_steps
                 (neurodynamic_trace_step cfg forcing neurodynamic_parameter_mesh
                    subspace_1_size subspace_2_size refractory_period_length decay_scale
                    weiner_coefficient rnd)
                 [1..<nat num_timesteps] st0 of
            Inl e \<Rightarrow> Inl e
          | Inr st \<Rightarrow> Inr (map (map fst) st, map (map (spike_stack_of \<circ> snd)) st))"

text \<open>
  One step of the trace-free neurodynamic kernel, and the kernel
  \<open>HPC_phi_6_sim_neurodynamic_subspace_ARC\<close>. Its loop starts at step 0, as that of the
  trace-free forcing kernel does.
\<close>

definition neurodynamic_ARC_step ::
  "sim_config \<Rightarrow> real list \<Rightarrow> (real \<times> real) list list \<Rightarrow> nat \<Rightarrow> nat \<Rightarrow> int \<Rightarrow> real \<Rightarrow> real
     \<Rightarrow> draws \<Rightarrow> nat \<Rightarrow> (real \<times> neuron) list list \<Rightarrow> py_error + (real \<times> neuron) list list" where
  "neurodynamic_ARC_step cfg forcing mesh n1 n2 rpl decay_scale wc rnd step st =
     (if \<not> mesh_fits mesh n1 n2 then Inl ValueError
      else case series_at forcing step of
        Inl e \<Rightarrow> Inl e
      | Inr f \<Rightarrow> mesh_map n1 n2 (\<lambda>i j.
          cell_update_neurodynamic cfg rpl (fst (mesh_entry mesh i j))
            (snd (mesh_entry mesh i j) * decay_scale) wc f
            (rnd step i j) step (fst (st ! i ! j)) (snd (st ! i ! j))))"

definition HPC_phi_6_sim_neurodynamic_subspace_ARC ::
  "real list \<Rightarrow> (real \<times> real) list list \<Rightarrow> nat \<Rightarrow> nat \<Rightarrow> sim_config \<Rightarrow> draws
     \<Rightarrow> py_error + int list list list" where
  "HPC_phi_6_sim_neurodynamic_subspace_ARC forcing neurodynamic_parameter_mesh
       subspace_1_size subspace_2_size cfg rnd =
     (if dt cfg = 0 then Inl ZeroDivisionError
      else
        let num_timesteps = py_int (simulation_duration cfg / dt cfg);
            refractory_period_length = py_int (refractory_period_duration cfg / dt cfg)
        in
        if adaptation_time_constant cfg = 0 then Inl ZeroDivisionError
        else if dt cfg * OU_time_constant cfg < 0 then Inl ValueError
        else
          let decay_scale = (- dt cfg) / adaptation_time_constant cfg;
              weiner_coefficient = OU_sigma cfg * sqrt (dt cfg * OU_time_constant cfg);
              st0 = map (\<lambda>i. map (\<lambda>j.
                      (hadamard 1 (rest_V cfg), init_neuron cfg refractory_period_length))
                      [0..<subspace_2_size])
                    [0..<subspace_1_size]
          in
          case run_steps
                 (neurodynamic_ARC_step cfg forcing neurodynamic_parameter_mesh
                    subspace_1_size subspace_2_size refractory_period_length decay_scale
                    weiner_coefficient rnd)
                 [0..<nat num_timesteps] st0 of
            Inl e \<Rightarrow> Inl e
          | Inr st \<Rightarrow> Inr (map (map (spike_stack_of \<circ> snd)) st))"

text \<open>
  The loop body of the stochastic kernels at one coordinate. It differs from that of the
  forcing kernels in the noise update: the mean and the scale of the increment are the
  cell's own.
\<close>

definition cell_update_stochastic ::
  "sim_config \<Rightarrow> int \<Rightarrow> real \<Rightarrow> real \<Rightarrow> real \<Rightarrow> real \<Rightarrow> real \<Rightarrow> nat \<Rightarrow> real \<Rightarrow> neuron
     \<Rightarrow> py_error + (real \<times> neuron)" where
  "cell_update_stochastic cfg refractory_period_length adaptation_decay_rate cell_mu cell_scale
       forcing random_number step v_prev c =
     (let w1 = condit_add (W_of c) (spike_state_of c) (dt cfg * adaptation_response_constant cfg);
          w2 = condit_add w1 True ((- dt cfg * adaptation_decay_rate) * w1);
          x = ornstein_uhlenbeck (xi_of c) cell_mu (OU_time_constant cfg) (dt cfg)
                cell_scale random_number;
          v1 = subthresh_SASLIF_integrate v_prev (\<not> spike_state_of c) (dt cfg) (rest_V cfg)
                forcing w2 (neuron_time_constant cfg) x;
          v2 = condit_assign_num v1
                (spike_state_of c \<and> refractory_of c \<le> refractory_period_length) (spike_V cfg);
          v3 = condit_assign_num v2
                (spike_state_of c \<and> refractory_of c > refractory_period_length) (rest_V cfg);
          r1 = condit_assign_num (refractory_of c)
                (refractory_of c > refractory_period_length) 0;
          subthreshold = (v3 < neuron_threshold cfg);
          suprathreshold = (\<not> subthreshold);
          s1 = condit_assign_bool (spike_state_of c) suprathreshold True;
          s2 = condit_assign_bool s1 subthreshold False;
          logged = (if s2 = True \<and> r1 = 0
                    then log_spike step (spike_stack_of c) (stack_topography_of c)
                    else Inr (spike_stack_of c, stack_topography_of c))
      in case logged of
           Inl e \<Rightarrow> Inl e
         | Inr (stack, topo) \<Rightarrow>
             Inr (v3, \<lparr> xi_of = x, W_of = w2, spike_state_of = s2,
                        refractory_of = condit_add r1 (s2 \<and> r1 \<le> refractory_period_length) 1,
                        spike_stack_of = stack, stack_topography_of = topo \<rparr>))"

text \<open>The coordinate of the mesh entry that serves the cell \<open>(i, j)\<close>.\<close>

definition mesh_index :: "'a list list \<Rightarrow> nat \<Rightarrow> nat \<Rightarrow> nat \<times> nat" where
  "mesh_index mesh i j =
     (let bi = (if length mesh = 1 then 0 else i)
      in (bi, if length (mesh ! bi) = 1 then 0 else j))"

text \<open>
  One step of the trace-preserving stochastic kernel, and the kernel
  \<open>HPC_phi_6_sim_stochastic_subspace\<close>. The mesh holds the noise mean and volatility of the
  cells; the draws have the shape of the mesh.
\<close>

definition stochastic_trace_step ::
  "sim_config \<Rightarrow> real list \<Rightarrow> (real \<times> real) list list \<Rightarrow> nat \<Rightarrow> nat \<Rightarrow> int \<Rightarrow> real \<Rightarrow> real
     \<Rightarrow> draws \<Rightarrow> nat \<Rightarrow> (real list \<times> neuron) list list
     \<Rightarrow> py_error + (real list \<times> neuron) list list" where
  "stochastic_trace_step cfg forcing mesh n1 n2 rpl adr sigma_scale rnd step st =
     (if \<not> mesh_fits mesh n1 n2 then Inl ValueError
      else case series_at forcing step of
        Inl e \<Rightarrow> Inl e
      | Inr f \<Rightarrow> mesh_map n1 n2 (\<lambda>i j.
          case cell_update_stochastic cfg rpl adr (fst (mesh_entry mesh i j))
                 (snd (mesh_entry mesh i j) * sigma_scale) f
                 (rnd (step - 1) (fst (mesh_index mesh i j)) (snd (mesh_index mesh i j))) step
                 (fst (st ! i ! j) ! (step - 1)) (snd (st ! i ! j)) of
            Inl e \<Rightarrow> Inl e
          | Inr (v, c) \<Rightarrow> Inr ((fst (st ! i ! j))[step := v], c)))"

definition HPC_phi_6_sim_stochastic_subspace ::
  "real list \<Rightarrow> (real \<times> real) list list \<Rightarrow> nat \<Rightarrow> nat \<Rightarrow> sim_config \<Rightarrow> draws
     \<Rightarrow> py_error + (real list list list \<times> int list list list)" where
  "HPC_phi_6_sim_stochastic_subspace forcing stochastic_parameter_mesh
       subspace_1_size subspace_2_size cfg rnd =
     (if dt cfg = 0 then Inl ZeroDivisionError
      else
        let num_timesteps = py_int (simulation_duration cfg / dt cfg);
            refractory_period_length = py_int (refractory_period_duration cfg / dt cfg)
        in
        if num_timesteps < 0 then Inl ValueError
        else if num_timesteps = 0 then Inl OutOfBounds
        else if adaptation_time_constant cfg = 0 then Inl ZeroDivisionError
        else if dt cfg * OU_time_constant cfg < 0 then Inl ValueError
        else
          let adaptation_decay_rate = adaptation_decay_constant cfg / adaptation_time_constant cfg;
              sigma_scale = sqrt (dt cfg * OU_time_constant cfg);
              st0 = map (\<lambda>i. map (\<lambda>j.
                      (replicate (nat num_timesteps) (hadamard 1 (rest_V cfg)),
                       init_neuron cfg refractory_period_length)) [0..<subspace_2_size])
                    [0..<subspace_1_size]
          in
          case run_steps
                 (stochastic_trace_step cfg forcing stochastic_parameter_mesh
                    subspace_1_size subspace_2_size refractory_period_length
                    adaptation_decay_rate sigma_scale rnd)
                 [1..<nat num_timesteps] st0 of
            Inl e \<Rightarrow> Inl e
          | Inr st \<Rightarrow> Inr (map (map fst) st, map (map (spike_stack_of \<circ> snd)) st))"

text \<open>
  One step of the trace-free stochastic kernel, and the kernel
  \<open>HPC_phi_6_sim_stochastic_subspace_ARC\<close>. Its loop starts at step 1, as that of the
  trace-preserving kernel does.
\<close>

definition stochastic_ARC_step ::
  "sim_config \<Rightarrow> real list \<Rightarrow> (real \<times> real) list list \<Rightarrow> nat \<Rightarrow> nat \<Rightarrow> int \<Rightarrow> real \<Rightarrow> real
     \<Rightarrow> draws \<Rightarrow> nat \<Rightarrow> (real \<times> neuron) list list \<Rightarrow> py_error + (real \<times> neuron) list list" where
  "stochastic_ARC_step cfg forcing mesh n1 n2 rpl adr sigma_scale rnd step st =
     (if \<not> mesh_fits mesh n1 n2 then Inl ValueError
      else case series_at forcing step of
        Inl e \<Rightarrow> Inl e
      | Inr f \<Rightarrow> mesh_map n1 n2 (\<lambda>i j.
          cell_update_stochastic cfg rpl adr (fst (mesh_entry mesh i j))
            (snd (mesh_entry mesh i j) * sigma_scale) f
            (rnd (step - 1) (fst (mesh_index mesh i j)) (snd (mesh_index mesh i j))) step
            (fst (st ! i ! j)) (snd (st ! i ! j))))"

definition HPC_phi_6_sim_stochastic_subspace_ARC ::
  "real list \<Rightarrow> (real \<times> real) list list \<Rightarrow> nat \<Rightarrow> nat \<Rightarrow> sim_config \<Rightarrow> draws
     \<Rightarrow> py_error + int list list list" where
  "HPC_phi_6_sim_stochastic_subspace_ARC forcing stochastic_parameter_mesh
       subspace_1_size subspace_2_size cfg rnd =
     (if dt cfg = 0 then Inl ZeroDivisionError
      else
        let num_timesteps = py_int (simulation_duration cfg / dt cfg);
            refractory_period_length = py_int (refractory_period_duration cfg / dt cfg)
        in
        if adaptation_time_constant cfg = 0 then Inl ZeroDivisionError
        else if dt cfg * OU_time_constant cfg < 0 then Inl ValueError
        else
          let adaptation_decay_rate = adaptation_decay_constant cfg / adaptation_time_constant cfg;
              sigma_scale = sqrt (dt cfg * OU_time_constant cfg);
              st0 = map (\<lambda>i. map (\<lambda>j.
                      (hadamard 1 (rest_V cfg), init_neuron cfg refractory_period_length))
                      [0..<subspace_2_size])
                    [0..<subspace_1_size]
          in
          case run_steps
                 (stochastic_ARC_step cfg forcing stochastic_parameter_mesh
                    subspace_1_size subspace_2_size refractory_period_length
                    adaptation_decay_rate sigma_scale rnd)
                 [1..<nat num_timesteps] st0 of
            Inl e \<Rightarrow> Inl e
          | Inr st \<Rightarrow> Inr (map (map (spike_stack_of \<circ> snd)) st))"

section \<open>The central-tendency estimator\<close>

text \<open>
  \<open>numpy.mean\<close> and \<open>numpy.median\<close> of a one-dimensional array; \<open>None\<close> is the NaN they
  return on an empty array.
\<close>

definition np_mean :: "real list \<Rightarrow> real option" where
  "np_mean xs = (if xs = [] then None else Some (sum_list xs / real (length xs)))"

definition np_median :: "real list \<Rightarrow> real option" where
  "np_median xs =
     (let s = sort xs; n = length s in
      if n = 0 then None
      else if odd n then Some (s ! (n div 2))
      else Some ((s ! (n div 2 - 1) + s ! (n div 2)) / 2))"

text \<open>
  \<open>central_tendency_selector\<close>. The density-mode branch fits a kernel density estimate
  with an external library when there is more than one sample; that fit is the parameter
  \<open>kde\<close> (\<open>None\<close> when the library raises).
\<close>

definition central_tendency_selector ::
  "(real list \<Rightarrow> real option) \<Rightarrow> real list \<Rightarrow> string \<Rightarrow> real option" where
  "central_tendency_selector kde data central_tendency_technique =
     (if central_tendency_technique = ''mean'' then np_mean data
      else if central_tendency_technique = ''median'' then np_median data
      else if central_tendency_technique = ''KDE'' then
        (if length data = 1 then Some (data ! 0) else kde data)
      else np_mean data)"

section \<open>Phase-cycle segmentation\<close>

text \<open>\<open>numpy.arctan2(y, x)\<close> on the reals: the angle of the point \<open>(x, y)\<close>.\<close>

definition arctan2 :: "real \<Rightarrow> real \<Rightarrow> real" where
  "arctan2 y x =
     (if 0 < x then arctan (y / x)
      else if x < 0 then (if 0 \<le> y then arctan (y / x) + pi else arctan (y / x) - pi)
      else if 0 < y then pi / 2
      else if y < 0 then - pi / 2
      else 0)"

text \<open>The four lines "Preprocess the analytic signal", one array operation each.\<close>

definition theta_phase_time_series :: "complex list \<Rightarrow> real list" where
  "theta_phase_time_series analytic_signal =
     (let t0 = map (\<lambda>z. arctan2 (Im z) (Re z)) analytic_signal;
          t1 = map (\<lambda>p. if p < 0 then p + 2 * pi else p) t0;
          t2 = map (\<lambda>p. p + - 3 * pi / 2) t1;
          t3 = map (\<lambda>p. if p < 0 then p + 2 * pi else p) t2
      in t3)"

text \<open>\<open>numpy.diff\<close> of a one-dimensional array.\<close>

definition np_diff :: "real list \<Rightarrow> real list" where
  "np_diff xs = map (\<lambda>(a, b). b - a) (zip xs (tl xs))"

text \<open>\<open>np.where(theta_omega_time_series < 0)[0]\<close>: the indices of the negative entries.\<close>

definition cycle_boundary_indices :: "real list \<Rightarrow> nat list" where
  "cycle_boundary_indices theta_phase =
     (let theta_omega_time_series = np_diff theta_phase
      in filter (\<lambda>k. theta_omega_time_series ! k < 0) [0..<length theta_omega_time_series])"

text \<open>
  A three-dimensional array is a list of rows of columns. Its extent along axis 2 is the
  length of a column (0 when the mesh has no cell).
\<close>

definition shape_2 :: "'a list list list \<Rightarrow> nat" where
  "shape_2 a = (case concat a of [] \<Rightarrow> 0 | col # _ \<Rightarrow> length col)"

text \<open>\<open>np.all(spike_stack[:, :, slice_index] == 0)\<close>.\<close>

definition slice_all_zero :: "int list list list \<Rightarrow> nat \<Rightarrow> bool" where
  "slice_all_zero stack slice_index =
     list_all (list_all (\<lambda>col. col ! slice_index = 0)) stack"

text \<open>
  The loop "Identify index on axis 2 where the data ends": the first slot index whose
  slice is zero in every cell; \<open>None\<close> when the loop ends without binding
  \<open>truncation_index\<close>.
\<close>

definition truncation_index :: "int list list list \<Rightarrow> nat option" where
  "truncation_index stack = find (slice_all_zero stack) [0..<shape_2 stack]"

text \<open>
  \<open>spike_stack[:, :, :truncation_index]\<close>; reading the unbound name raises. The mask of
  the zeros is applied where the entries are selected, in \<open>cell_cycle_phi\<close>.
\<close>

definition truncate_stack :: "int list list list \<Rightarrow> py_error + int list list list" where
  "truncate_stack stack =
     (case truncation_index stack of
        None \<Rightarrow> Inl UnboundLocalError
      | Some t \<Rightarrow> Inr (map (map (take t)) stack))"

text \<open>
  Following the spec's words, for comparison with \<open>truncation_index\<close>: at the time-step
  index \<open>t\<close> "all cells report zero further spikes" when no cell has logged a spike at a
  step \<open>t\<close> or later.
\<close>

definition spec_no_further_spikes :: "int list list list \<Rightarrow> int \<Rightarrow> bool" where
  "spec_no_further_spikes stack t =
     list_all (list_all (list_all (\<lambda>e. e = 0 \<or> e < t))) stack"

text \<open>
  Indexing the phase series with an array of spike indices: an index outside the series
  raises, a negative one counts from the end.
\<close>

definition phase_at :: "real list \<Rightarrow> int \<Rightarrow> py_error + real" where
  "phase_at theta_phase e =
     (let n = int (length theta_phase) in
      if 0 \<le> e \<and> e < n then Inr (theta_phase ! nat e)
      else if - n \<le> e \<and> e < 0 then Inr (theta_phase ! nat (n + e))
      else Inl IndexError)"

text \<open>
  The entry of \<open>cycle_phi_slice\<close> for cycle \<open>i\<close> at one cell: the phases of the unmasked
  spikes of the column that fall in the cycle, reduced by the estimator; 0 when there is
  none. The first branch reads \<open>cycle_boundary_indices[0]\<close>, which raises on an empty
  array.
\<close>

definition cell_cycle_phi ::
  "(real list \<Rightarrow> real option) \<Rightarrow> string \<Rightarrow> real list \<Rightarrow> nat list \<Rightarrow> nat \<Rightarrow> int list
     \<Rightarrow> py_error + real" where
  "cell_cycle_phi kde technique theta_phase boundaries i stack_column =
     (if i = 0 \<and> boundaries = [] then Inl IndexError
      else
        let inside = (\<lambda>e.
              if i = 0 then e < int (boundaries ! i)
              else if i < length boundaries
                then int (boundaries ! (i - 1)) \<le> e \<and> e < int (boundaries ! i)
              else int (boundaries ! (i - 1)) \<le> e);
            selected = filter (\<lambda>e. inside e \<and> e \<noteq> 0) stack_column
        in case collect (map (phase_at theta_phase) selected) of
             Inl err \<Rightarrow> Inl err
           | Inr cycle_phi \<Rightarrow>
               if cycle_phi \<noteq> [] then
                 (case central_tendency_selector kde cycle_phi technique of
                    None \<Rightarrow> Inl PyException
                  | Some ct \<Rightarrow> Inr ct)
               else Inr 0)"

text \<open>
  One pass of the loop over the cycles: the slice of cycle \<open>i\<close> is computed cell by cell
  and concatenated to the block along axis 2 (the first slice is the block).
\<close>

definition cycle_step ::
  "(real list \<Rightarrow> real option) \<Rightarrow> string \<Rightarrow> real list \<Rightarrow> nat list \<Rightarrow> int list list list
     \<Rightarrow> nat \<Rightarrow> real list list list \<Rightarrow> py_error + real list list list" where
  "cycle_step kde technique theta_phase boundaries stack i cycle_phi_block =
     (case collect (map (\<lambda>row. collect
               (map (cell_cycle_phi kde technique theta_phase boundaries i) row)) stack) of
        Inl err \<Rightarrow> Inl err
      | Inr cycle_phi_slice \<Rightarrow>
          if i = 0 then Inr (map (map (\<lambda>v. [v])) cycle_phi_slice)
          else Inr (map (\<lambda>(brow, srow). map (\<lambda>(col, v). col @ [v]) (zip brow srow))
                      (zip cycle_phi_block cycle_phi_slice)))"

text \<open>
  \<open>HPC_phi_phase_analysis\<close> with \<open>get_average_indices = False\<close>: it returns the block of
  per-cycle phases and the cycle boundaries.
\<close>

definition HPC_phi_phase_analysis ::
  "(real list \<Rightarrow> real option) \<Rightarrow> int list list list \<Rightarrow> complex list \<Rightarrow> string
     \<Rightarrow> py_error + (real list list list \<times> nat list)" where
  "HPC_phi_phase_analysis kde spike_stack analytic_signal central_tendency_technique =
     (let theta_phase = theta_phase_time_series analytic_signal;
          boundaries = cycle_boundary_indices theta_phase
      in case truncate_stack spike_stack of
           Inl err \<Rightarrow> Inl err
         | Inr stack \<Rightarrow>
             let num_cycles = length boundaries + 1 in
             case run_steps
                    (cycle_step kde central_tendency_technique theta_phase boundaries stack)
                    [0..<num_cycles] [] of
               Inl err \<Rightarrow> Inl err
             | Inr cycle_phi_block \<Rightarrow> Inr (cycle_phi_block, boundaries))"

section \<open>The regime quantifier\<close>

text \<open>The value stored under \<open>num_cycles\<close>: an integer or a string.\<close>

datatype py_value = PyInt int | PyStr string

text \<open>\<open>value <= 0\<close>: comparing a string with an integer raises.\<close>

definition py_le_zero :: "py_value \<Rightarrow> py_error + bool" where
  "py_le_zero v = (case v of PyInt n \<Rightarrow> Inr (n \<le> 0) | PyStr s \<Rightarrow> Inl TypeError)"

definition py_eq_all :: "py_value \<Rightarrow> bool" where
  "py_eq_all v = (case v of PyInt n \<Rightarrow> False | PyStr s \<Rightarrow> s = ''all'')"

text \<open>
  The RMQ of one cell: the last \<open>n\<close> cycles, zeros masked (\<open>None\<close>), reversed, first
  differences (masked where either operand is), and the mean of the unmasked differences
  (masked when there is none).
\<close>

definition masked_diff :: "real option list \<Rightarrow> real option list" where
  "masked_diff xs =
     map (\<lambda>(a, b). case (a, b) of (Some x, Some y) \<Rightarrow> Some (y - x) | _ \<Rightarrow> None) (zip xs (tl xs))"

definition masked_mean :: "real option list \<Rightarrow> real option" where
  "masked_mean xs = np_mean (concat (map (\<lambda>x. case x of None \<Rightarrow> [] | Some v \<Rightarrow> [v]) xs))"

definition cell_RMQ :: "nat \<Rightarrow> real list \<Rightarrow> real option" where
  "cell_RMQ n col =
     (let cycle_phi_block_slice = drop (length col - n) col;
          masked = map (\<lambda>v. if v = 0 then None else Some v) cycle_phi_block_slice;
          first_order_differences = masked_diff (rev masked)
      in masked_mean first_order_differences)"

text \<open>
  \<open>HPC_phi_compute_RMQ\<close>. The test \<open>num_cycles <= 0 or num_cycles == 'all'\<close> evaluates its
  left operand first.
\<close>

definition HPC_phi_compute_RMQ ::
  "py_value \<Rightarrow> real list list list \<Rightarrow> py_error + real option list list" where
  "HPC_phi_compute_RMQ num_cycles cycle_phi_block =
     (case py_le_zero num_cycles of
        Inl err \<Rightarrow> Inl err
      | Inr le \<Rightarrow>
          let n1 = (if le \<or> py_eq_all num_cycles then int (shape_2 cycle_phi_block)
                    else (case num_cycles of PyInt n \<Rightarrow> n | PyStr s \<Rightarrow> 0));
              n2 = min n1 (int (shape_2 cycle_phi_block))
          in Inr (map (map (cell_RMQ (nat n2))) cycle_phi_block))"

section \<open>The pipeline manager\<close>

text \<open>
  The attributes of \<open>PipelineManager\<close> that decide whether and how a simulation is run:
  the simulation specifications, the step count computed by the constructor, the counter
  of parameter subsets, the subsets themselves (\<open>subset_k\<close> with \<open>subset_k_name\<close>, in the
  order they were added) and the \<open>ARC\<close> flag.
\<close>

record pipeline =
  sim_spec :: sim_config
  num_timesteps :: int
  num_subsets :: nat
  subsets :: "(real list \<times> string) list"
  ARC :: bool

text \<open>The constructor: the division \<open>simulation_duration / dt\<close> raises when \<open>dt\<close> is 0.\<close>

definition PipelineManager_init :: "sim_config \<Rightarrow> bool \<Rightarrow> py_error + pipeline" where
  "PipelineManager_init simulation_specifications arc =
     (if dt simulation_specifications = 0 then Inl ZeroDivisionError
      else Inr \<lparr> sim_spec = simulation_specifications,
                 num_timesteps = py_int (simulation_duration simulation_specifications
                                          / dt simulation_specifications),
                 num_subsets = 0, subsets = [], ARC = arc \<rparr>)"

text \<open>\<open>numpy.linspace(start, stop, num)\<close>.\<close>

definition np_linspace :: "real \<Rightarrow> real \<Rightarrow> nat \<Rightarrow> real list" where
  "np_linspace start stop num =
     (if num = 1 then [start]
      else map (\<lambda>k. start + real k * ((stop - start) / real (num - 1))) [0..<num])"

definition add_parameter_subset :: "pipeline \<Rightarrow> real \<Rightarrow> real \<Rightarrow> nat \<Rightarrow> string \<Rightarrow> pipeline" where
  "add_parameter_subset p start stop num name =
     p \<lparr> subsets := subsets p @ [(np_linspace start stop num, name)],
         num_subsets := num_subsets p + 1 \<rparr>"

text \<open>
  \<open>_init_forcing\<close>: both subset keys are looked up under the name \<open>theta_amplitude\<close>
  (a lookup that raises when no subset has it), so the mesh pairs that subset with itself.
  It returns the mesh with the two sizes passed to the kernel.
\<close>

definition init_forcing :: "pipeline \<Rightarrow> py_error + ((real \<times> real) list list \<times> nat \<times> nat)" where
  "init_forcing p =
     (case find (\<lambda>s. snd s = ''theta_amplitude'') (subsets p) of
        None \<Rightarrow> Inl ValueError
      | Some s \<Rightarrow> Inr (map (\<lambda>a. map (\<lambda>b. (a, b)) (fst s)) (fst s), length (fst s), length (fst s)))"

text \<open>
  \<open>execute_pipeline\<close> for a new simulation (\<open>decode = False\<close>), up to the return of the
  simulation kernel; its value is the spike stack the kernel returned. Building the
  simulation name reads the names and the end points of the first two subsets. The
  kernels of the mesh types \<open>neurodynamics\<close> and \<open>stochastic\<close> are the parameter
  \<open>other_kernels\<close>; with any other mesh type no kernel runs and the summary reads an
  unbound \<open>spike_stack\<close>.
\<close>

definition execute_pipeline ::
  "(string \<Rightarrow> pipeline \<Rightarrow> py_error + int list list list) \<Rightarrow> pipeline \<Rightarrow> string \<Rightarrow> draws
     \<Rightarrow> py_error + int list list list" where
  "execute_pipeline other_kernels p mesh_type rnd =
     (if length (subsets p) < 2 then Inl AttributeError
      else if fst (subsets p ! 0) = [] \<or> fst (subsets p ! 1) = [] then Inl IndexError
      else if num_subsets p \<noteq> 2 then Inl PyException
      else if mesh_type = ''forcing'' then
        (case init_forcing p of
           Inl e \<Rightarrow> Inl e
         | Inr (forcing_amplitude_mesh, size_1, size_2) \<Rightarrow>
             if ARC p then
               HPC_phi_6_sim_forcing_subspace_ARC forcing_amplitude_mesh size_1 size_2 (sim_spec p) rnd
             else
               (case HPC_phi_6_sim_forcing_subspace forcing_amplitude_mesh size_1 size_2 (sim_spec p) rnd of
                  Inl e \<Rightarrow> Inl e
                | Inr (Vm_t, stack) \<Rightarrow> Inr stack))
      else if mesh_type = ''neurodynamics'' \<or> mesh_type = ''stochastic'' then
        other_kernels mesh_type p
      else Inl UnboundLocalError)"

section \<open>Example inputs\<close>

text \<open>
  A three-step run with the voltages and the adaptation constants of \<open>main\<close>, a step of
  1 ms and unit membrane and noise time constants: \<open>sqrt(dt * OU_time_constant)\<close> is 1,
  and a step of the voltage from rest adds the input current itself, whether a kernel
  scales it by \<open>dt\<close> or by \<open>dt\<close> over the time constant.
\<close>

definition kick_cfg :: sim_config where
  "kick_cfg = \<lparr> theta_frequency = 10, interference_frequency = 11,
      simulation_duration = 3, dt = 1, neuron_threshold = - 40, neuron_time_constant = 1,
      rest_V = - 75, spike_V = 50, refractory_period_duration = 2,
      adaptation_response_constant = 50, adaptation_decay_constant = 8,
      adaptation_time_constant = 10, OU_sigma = 100, OU_mu = 0, OU_time_constant = 1 \<rparr>"




text \<open>
  A run of 5002 steps of a cell whose resting voltage is above the threshold, without
  refractory period: the cell is in the spiking state at every step.
\<close>

definition busy_cfg :: sim_config where
  "busy_cfg = kick_cfg \<lparr> simulation_duration := 5002, rest_V := - 30,
      refractory_period_duration := 0 \<rparr>"

text \<open>A configuration with a negative duration, and a pipeline built on it with two subsets.\<close>

definition negative_cfg :: sim_config where
  "negative_cfg = kick_cfg \<lparr> simulation_duration := - 3 \<rparr>"

definition negative_pipeline :: "py_error + pipeline" where
  "negative_pipeline =
     (case PipelineManager_init negative_cfg True of
        Inl e \<Rightarrow> Inl e
      | Inr p \<Rightarrow>
          Inr (add_parameter_subset
                 (add_parameter_subset p 20 50 2 ''theta_amplitude'')
                 20 50 2 ''interference_amplitude''))"

text \<open>A pipeline to which a single subset was added.\<close>

definition one_subset_pipeline :: pipeline where
  "one_subset_pipeline = \<lparr> sim_spec = kick_cfg, num_timesteps = 3, num_subsets = 1,
     subsets = [([20, 50], ''theta_amplitude'')], ARC = True \<rparr>"

section \<open>Invariants of the simulation\<close>


text \<open>
  The log of a cell in a run of \<open>T\<close> steps: the occupancy is within the column, the slots
  below it hold step indices from 1 up, the slots from it on hold 0.
\<close>

definition log_inv :: "int \<Rightarrow> neuron \<Rightarrow> bool" where
  "log_inv T c \<longleftrightarrow>
     length (spike_stack_of c) = stack_height \<and> 0 \<le> stack_topography_of c \<and>
     stack_topography_of c \<le> int stack_height \<and>
     (\<forall>k<stack_height. if int k < stack_topography_of c
        then 1 \<le> spike_stack_of c ! k \<and> spike_stack_of c ! k < T else spike_stack_of c ! k = 0)"

text \<open>
  The logged entries of a cell after step \<open>s\<close>: none is above \<open>s\<close>, and they increase
  strictly with the slot.
\<close>

definition log_sorted :: "nat \<Rightarrow> neuron \<Rightarrow> bool" where
  "log_sorted s c \<longleftrightarrow>
     (\<forall>k<nat (stack_topography_of c). spike_stack_of c ! k \<le> int s) \<and>
     (\<forall>l<nat (stack_topography_of c). \<forall>k<l. spike_stack_of c ! k < spike_stack_of c ! l)"

definition mesh_inv :: "nat \<Rightarrow> nat \<Rightarrow> ('c \<Rightarrow> bool) \<Rightarrow> 'c list list \<Rightarrow> bool" where
  "mesh_inv n1 n2 P st \<longleftrightarrow>
     length st = n1 \<and> (\<forall>i<n1. length (st ! i) = n2 \<and> (\<forall>j<n2. P (st ! i ! j)))"


text \<open>The cell of the run on \<open>busy_cfg\<close> after step \<open>s\<close>: spiking, with \<open>s\<close> logged spikes.\<close>

definition busy_inv :: "nat \<Rightarrow> real list \<times> neuron \<Rightarrow> bool" where
  "busy_inv s p \<longleftrightarrow>
     spike_state_of (snd p) \<and> (refractory_of (snd p) = 0 \<or> refractory_of (snd p) = 1) \<and>
     stack_topography_of (snd p) = int s \<and> length (spike_stack_of (snd p)) = 5000"

text \<open>
  A cell of the trace-preserving run and the cell of the trace-free run at the same
  coordinate after step \<open>s\<close>: the same neuron state, and the voltage of the trace-free cell
  is the entry \<open>s\<close> of the trace.
\<close>

definition same_cell :: "nat \<Rightarrow> nat \<Rightarrow> real list \<times> neuron \<Rightarrow> real \<times> neuron \<Rightarrow> bool" where
  "same_cell T s p q \<longleftrightarrow> length (fst p) = T \<and> fst p ! s = fst q \<and> snd p = snd q"

definition same_mesh ::
  "nat \<Rightarrow> nat \<Rightarrow> nat \<Rightarrow> nat \<Rightarrow> (real list \<times> neuron) list list \<Rightarrow> (real \<times> neuron) list list \<Rightarrow> bool" where
  "same_mesh n1 n2 T s x y \<longleftrightarrow>
     mesh_inv n1 n2 (\<lambda>p. True) x \<and> list_all2 (list_all2 (same_cell T s)) x y"

section \<open>Auxiliary facts\<close>

lemmas kernel_defs = hadamard_def scalar_add_def condit_add_def condit_assign_bool_def
  condit_assign_num_def ornstein_uhlenbeck_def subthresh_SASLIF_integrate_def
  stack_topography_flatten_def integer_add_def

lemma py_int_numeral [simp]: "py_int (numeral n) = numeral n" "py_int 0 = 0" "py_int 1 = 1"
  by (simp_all add: py_int_def)

lemma int32_id: "- 2147483648 \<le> k \<Longrightarrow> k < 2147483648 \<Longrightarrow> int32 k = k"
  unfolding int32_def by simp

lemma upt_Suc0_3: "[Suc 0..<3] = [Suc 0, 2]"
  by (simp add: upt_rec)

lemma upt_0_3: "[0..<3] = [0, Suc 0, 2]"
  by (simp add: upt_rec)

subsection \<open>Meshes and loops\<close>

lemma collect_map_Inr: "collect (map Inr ys) = Inr ys"
  by (induction ys) auto

lemma collect_Inr_D: "collect xs = Inr ys \<Longrightarrow> xs = map Inr ys"
proof (induction xs arbitrary: ys)
  case Nil
  then show ?case by auto
next
  case (Cons x xs)
  then show ?case by (auto split: sum.splits)
qed

lemma collect_Inr_iff: "collect xs = Inr ys \<longleftrightarrow> xs = map Inr ys"
  using collect_map_Inr collect_Inr_D by blast

lemma mesh_map_Inr_iff:
  "mesh_map n1 n2 f = Inr m \<longleftrightarrow>
     length m = n1 \<and> (\<forall>i<n1. length (m ! i) = n2 \<and> (\<forall>j<n2. f i j = Inr (m ! i ! j)))"
  unfolding mesh_map_def collect_Inr_iff
  by (auto simp: list_eq_iff_nth_eq collect_Inr_iff)

lemma mesh_inv_init:
  "(\<And>i j. P (f i j)) \<Longrightarrow> mesh_inv n1 n2 P (map (\<lambda>i. map (\<lambda>j. f i j) [0..<n2]) [0..<n1])"
  by (simp add: mesh_inv_def)

lemma run_steps_append:
  "run_steps f (ks @ ls) s =
     (case run_steps f ks s of Inl e \<Rightarrow> Inl e | Inr s' \<Rightarrow> run_steps f ls s')"
  by (induction ks arbitrary: s) (auto split: sum.splits)


lemma run_steps_indexed:
  assumes "run_steps f [a..<b] s = Inr s'" and "a \<le> b" and "P a s"
    and "\<And>k x y. a \<le> k \<Longrightarrow> k < b \<Longrightarrow> P k x \<Longrightarrow> f k x = Inr y \<Longrightarrow> P (Suc k) y"
  shows "P b s'"
  using assms
proof (induction b arbitrary: s')
  case 0
  then show ?case by simp
next
  case (Suc b)
  show ?case
  proof (cases "a \<le> b")
    case True
    then have split: "[a..<Suc b] = [a..<b] @ [b]" by simp
    from Suc.prems(1) obtain mid where
      mid: "run_steps f [a..<b] s = Inr mid" and last: "f b mid = Inr s'"
      unfolding split run_steps_append by (auto split: sum.splits)
    have "P b mid"
      using Suc.IH[OF mid True Suc.prems(3)] Suc.prems(4) by simp
    then show ?thesis using Suc.prems(4)[OF True _ _ last] by simp
  next
    case False
    then have "a = Suc b" using Suc.prems(2) by simp
    then show ?thesis using Suc.prems(1,3) by simp
  qed
qed

lemma trace_step_shape:
  assumes "trace_step cfg mesh n1 n2 rpl adr wc rnd step st = Inr st'"
  shows "length st' = n1" and "i < n1 \<Longrightarrow> length (st' ! i) = n2"
  using assms unfolding trace_step_def
  by (auto simp: mesh_map_Inr_iff split: if_splits)

lemma trace_step_cell:
  assumes "trace_step cfg mesh n1 n2 rpl adr wc rnd step st = Inr st'" "i < n1" "j < n2"
  shows "length st' = n1 \<and> length (st' ! i) = n2 \<and>
         (case cell_update cfg rpl adr wc (forcing_at cfg (mesh_entry mesh i j) step)
              (rnd (step - 1) i j) step (fst (st ! i ! j) ! (step - 1)) (snd (st ! i ! j)) of
            Inl e \<Rightarrow> Inl e
          | Inr (v, c) \<Rightarrow> Inr ((fst (st ! i ! j))[step := v], c)) = Inr (st' ! i ! j)"
proof -
  from assms(1) have "mesh_map n1 n2 (\<lambda>i j.
        case cell_update cfg rpl adr wc (forcing_at cfg (mesh_entry mesh i j) step)
               (rnd (step - 1) i j) step (fst (st ! i ! j) ! (step - 1)) (snd (st ! i ! j)) of
          Inl e \<Rightarrow> Inl e
        | Inr (v, c) \<Rightarrow> Inr ((fst (st ! i ! j))[step := v], c)) = Inr st'"
    unfolding trace_step_def by (simp split: if_splits)
  then show ?thesis using assms(2,3) unfolding mesh_map_Inr_iff by blast
qed

lemma trace_step_single:
  "trace_step cfg [[amps]] (Suc 0) (Suc 0) rpl adr wc rnd step [[(Vt, c)]] =
     (case cell_update cfg rpl adr wc (forcing_at cfg amps step)
              (rnd (step - Suc 0) 0 0) step (Vt ! (step - Suc 0)) c of
        Inl e \<Rightarrow> Inl e
      | Inr (v, c') \<Rightarrow> Inr [[(Vt[step := v], c')]])"
  by (simp add: trace_step_def mesh_map_def mesh_fits_def mesh_entry_def
      split: sum.splits prod.splits)



lemma collect_rel:
  assumes "list_all2 (rel_sum (=) Q) xs ys"
  shows "rel_sum (=) (list_all2 Q) (collect xs) (collect ys)"
  using assms
proof (induction rule: list_all2_induct)
  case Nil
  then show ?case by simp
next
  case (Cons x xs y ys)
  then show ?case
    by (cases x; cases y; cases "collect xs"; cases "collect ys") auto
qed

lemma mesh_map_rel:
  assumes "\<And>i j. i < n1 \<Longrightarrow> j < n2 \<Longrightarrow> rel_sum (=) Q (f i j) (g i j)"
  shows "rel_sum (=) (list_all2 (list_all2 Q)) (mesh_map n1 n2 f) (mesh_map n1 n2 g)"
  unfolding mesh_map_def
proof (rule collect_rel)
  show "list_all2 (rel_sum (=) (list_all2 Q))
     (map (\<lambda>i. collect (map (f i) [0..<n2])) [0..<n1])
     (map (\<lambda>i. collect (map (g i) [0..<n2])) [0..<n1])"
    unfolding list_all2_map1 list_all2_map2 list_all2_same
  proof
    fix i assume "i \<in> set [0..<n1]"
    then have i: "i < n1" by simp
    show "rel_sum (=) (list_all2 Q) (collect (map (f i) [0..<n2])) (collect (map (g i) [0..<n2]))"
      by (rule collect_rel) (simp add: list_all2_map1 list_all2_map2 list_all2_same assms i)
  qed
qed

lemma run_steps_rel:
  assumes "\<And>k x y. a \<le> k \<Longrightarrow> k < b \<Longrightarrow> R k x y \<Longrightarrow> rel_sum (=) (R (Suc k)) (f k x) (g k y)"
    and "R a s t" and "a \<le> b"
  shows "rel_sum (=) (R b) (run_steps f [a..<b] s) (run_steps g [a..<b] t)"
  using assms
proof (induction b)
  case 0
  then show ?case by simp
next
  case (Suc b)
  show ?case
  proof (cases "a \<le> b")
    case True
    then have split: "[a..<Suc b] = [a..<b] @ [b]" by simp
    have IH: "rel_sum (=) (R b) (run_steps f [a..<b] s) (run_steps g [a..<b] t)"
      using Suc.IH Suc.prems True by simp
    show ?thesis
    proof (cases "run_steps f [a..<b] s")
      case (Inl e)
      with IH show ?thesis unfolding split run_steps_append
        by (cases "run_steps g [a..<b] t") auto
    next
      case (Inr x)
      with IH obtain y where y: "run_steps g [a..<b] t = Inr y" and r: "R b x y"
        by (cases "run_steps g [a..<b] t") auto
      from Suc.prems(1)[OF True _ r] have "rel_sum (=) (R (Suc b)) (f b x) (g b y)" by simp
      then show ?thesis unfolding split run_steps_append Inr y
        by (cases "f b x"; cases "g b y") auto
    qed
  next
    case False
    then have "a = Suc b" using Suc.prems(3) by simp
    then show ?thesis using Suc.prems(2) by simp
  qed
qed

subsection \<open>The log of one cell\<close>

lemma cell_update_log_cases:
  assumes "cell_update cfg rpl adr wc forcing r step v c = Inr (v', c')"
  shows "(spike_stack_of c' = spike_stack_of c \<and> stack_topography_of c' = stack_topography_of c) \<or>
         log_spike step (spike_stack_of c) (stack_topography_of c) =
           Inr (spike_stack_of c', stack_topography_of c')"
  using assms unfolding cell_update_def Let_def
  by (auto split: if_splits sum.splits prod.splits)



lemma log_spike_in_range:
  assumes "0 \<le> topo" "topo < int (length stack)"
  shows "log_spike step stack topo = Inr (stack[nat topo := int32 (int step)], topo + 1)"
  using assms unfolding log_spike_def stack_topography_flatten_def integer_add_def Let_def
  by simp

lemma log_spike_at_capacity:
  assumes "int (length stack) \<le> topo"
  shows "log_spike step stack topo = Inl OutOfBounds"
  using assms unfolding log_spike_def stack_topography_flatten_def integer_add_def Let_def
  by simp

lemma log_inv_init: "0 < T \<Longrightarrow> log_inv T (init_neuron cfg rpl)"
  by (simp add: log_inv_def init_neuron_def Let_def stack_height_def)

lemma log_inv_logged:
  assumes "(spike_stack_of c' = spike_stack_of c \<and> stack_topography_of c' = stack_topography_of c) \<or>
         log_spike step (spike_stack_of c) (stack_topography_of c) =
           Inr (spike_stack_of c', stack_topography_of c')"
    and "log_inv T c" and "1 \<le> step" and "int step < T" and "T \<le> 2147483648"
  shows "log_inv T c'"
proof -
  from assms(1)
  show ?thesis
  proof
    assume "spike_stack_of c' = spike_stack_of c \<and> stack_topography_of c' = stack_topography_of c"
    then show ?thesis using assms(2) by (simp add: log_inv_def)
  next
    assume L: "log_spike step (spike_stack_of c) (stack_topography_of c) =
                 Inr (spike_stack_of c', stack_topography_of c')"
    have len: "length (spike_stack_of c) = stack_height" and t0: "0 \<le> stack_topography_of c"
      and t1: "stack_topography_of c \<le> int stack_height"
      using assms(2) by (auto simp: log_inv_def)
    show ?thesis
    proof (cases "stack_topography_of c < int stack_height")
      case True
      have i32: "int32 (int step) = int step"
        using assms(3,4,5) by (intro int32_id) auto
      from L log_spike_in_range[of "stack_topography_of c" "spike_stack_of c" step] t0 True len
      have s: "spike_stack_of c' = (spike_stack_of c)[nat (stack_topography_of c) := int step]"
        and t: "stack_topography_of c' = stack_topography_of c + 1"
        by (auto simp: i32)
      show ?thesis
        unfolding log_inv_def
      proof (intro conjI allI impI)
        fix k assume k: "k < stack_height"
        show "if int k < stack_topography_of c'
              then 1 \<le> spike_stack_of c' ! k \<and> spike_stack_of c' ! k < T
              else spike_stack_of c' ! k = 0"
        proof (cases "k = nat (stack_topography_of c)")
          case True
          then show ?thesis using s t t0 k len assms(3,4) by simp
        next
          case False
          then have "spike_stack_of c' ! k = spike_stack_of c ! k" using s by simp
          moreover have "int k < stack_topography_of c' \<longleftrightarrow> int k < stack_topography_of c"
            using False t t0 by auto
          ultimately show ?thesis using assms(2) k by (simp add: log_inv_def)
        qed
      qed (use s t len t0 True in auto)
    next
      case False
      then have "int (length (spike_stack_of c)) \<le> stack_topography_of c" using len by simp
      from log_spike_at_capacity[OF this, of step] L show ?thesis by simp
    qed
  qed
qed

lemma log_inv_step:
  assumes "cell_update cfg rpl adr wc forcing r step v c = Inr (v', c')"
    and "log_inv T c" and "1 \<le> step" and "int step < T" and "T \<le> 2147483648"
  shows "log_inv T c'"
  using log_inv_logged[OF cell_update_log_cases[OF assms(1)] assms(2,3,4,5)] .

lemma masked_block:
  assumes "length xs = n" "h \<le> n"
    and "\<forall>k<n. if k < h then 1 \<le> xs ! k \<and> xs ! k < T else xs ! k = (0::int)"
  shows "filter (\<lambda>e. e \<noteq> 0) xs = take h xs"
proof -
  have a: "filter (\<lambda>e. e \<noteq> 0) (take h xs) = take h xs"
  proof (rule filter_True, rule ballI)
    fix x assume "x \<in> set (take h xs)"
    then obtain k where "k < length (take h xs)" "x = take h xs ! k"
      by (auto simp: in_set_conv_nth)
    then have "k < h" "k < n" "x = xs ! k" using assms(1,2) by auto
    then show "x \<noteq> 0" using assms(3) by force
  qed
  have b: "filter (\<lambda>e. e \<noteq> 0) (drop h xs) = []"
  proof (rule filter_False, rule ballI)
    fix x assume "x \<in> set (drop h xs)"
    then obtain k where "k < length (drop h xs)" "x = drop h xs ! k"
      by (auto simp: in_set_conv_nth)
    then have "h + k < n" "x = xs ! (h + k)" using assms(1,2) by auto
    then show "\<not> x \<noteq> 0" using assms(3) by force
  qed
  have "filter (\<lambda>e. e \<noteq> 0) xs = filter (\<lambda>e. e \<noteq> 0) (take h xs @ drop h xs)" by simp
  also have "\<dots> = take h xs" unfolding filter_append a b by simp
  finally show ?thesis .
qed








lemma log_sorted_init: "log_sorted s (init_neuron cfg rpl)"
  by (simp add: log_sorted_def init_neuron_def Let_def)

lemma log_sorted_step:
  assumes "cell_update cfg rpl adr wc forcing r step v c = Inr (v', c')"
    and "log_inv T c" and "log_sorted s c" and "s < step" and "int step < T" and "T \<le> 2147483648"
  shows "log_sorted step c'"
proof -
  from cell_update_log_cases[OF assms(1)]
  show ?thesis
  proof
    assume "spike_stack_of c' = spike_stack_of c \<and> stack_topography_of c' = stack_topography_of c"
    then show ?thesis using assms(3,4) by (force simp: log_sorted_def)
  next
    assume L: "log_spike step (spike_stack_of c) (stack_topography_of c) =
                 Inr (spike_stack_of c', stack_topography_of c')"
    have len: "length (spike_stack_of c) = stack_height" and t0: "0 \<le> stack_topography_of c"
      and t1: "stack_topography_of c \<le> int stack_height"
      using assms(2) by (auto simp: log_inv_def)
    show ?thesis
    proof (cases "stack_topography_of c < int stack_height")
      case True
      have i32: "int32 (int step) = int step"
        using assms(5,6) by (intro int32_id) auto
      define h where "h = nat (stack_topography_of c)"
      from L log_spike_in_range[of "stack_topography_of c" "spike_stack_of c" step] t0 True len
      have s: "spike_stack_of c' = (spike_stack_of c)[h := int step]"
        and t: "nat (stack_topography_of c') = Suc h"
        by (auto simp: i32 h_def)
      have hl: "h < length (spike_stack_of c)" using True t0 len by (simp add: h_def)
      have old: "\<forall>k<h. spike_stack_of c ! k \<le> int s"
        "\<forall>l<h. \<forall>k<l. spike_stack_of c ! k < spike_stack_of c ! l"
        using assms(3) by (auto simp: log_sorted_def h_def)
      show ?thesis
        unfolding log_sorted_def t s
      proof (intro conjI allI impI)
        fix k assume k: "k < Suc h"
        show "(spike_stack_of c)[h := int step] ! k \<le> int step"
        proof (cases "k = h")
          case True
          then show ?thesis using hl by simp
        next
          case False
          then have "k < h" using k by simp
          then have "spike_stack_of c ! k \<le> int s" using old(1) by simp
          then show ?thesis using False assms(4) by simp
        qed
      next
        fix l k assume l: "l < Suc h" and k: "k < l"
        show "(spike_stack_of c)[h := int step] ! k < (spike_stack_of c)[h := int step] ! l"
        proof (cases "l = h")
          case True
          then have "spike_stack_of c ! k \<le> int s" using old(1) k by simp
          then show ?thesis using True k hl assms(4) by simp
        next
          case False
          then have "l < h" "k < h" using l k by auto
          then show ?thesis using old(2) k by simp
        qed
      qed
    next
      case False
      then have "int (length (spike_stack_of c)) \<le> stack_topography_of c" using len by simp
      from log_spike_at_capacity[OF this, of step] L show ?thesis by simp
    qed
  qed
qed

lemma sorted_block:
  assumes "h \<le> length xs" "\<forall>l<h. \<forall>k<l. xs ! k < (xs ! l :: int)"
  shows "sorted_wrt (<) (take h xs)"
  using assms by (auto simp: sorted_wrt_iff_nth_less)

subsection \<open>The two modes of the stochastic kernel\<close>

lemma same_mesh_cell:
  assumes "same_mesh n1 n2 T s x y" "i < n1" "j < n2"
  shows "same_cell T s (x ! i ! j) (y ! i ! j)"
proof -
  from assms have l1: "length x = n1" and l2: "length (x ! i) = n2"
    and r: "list_all2 (list_all2 (same_cell T s)) x y"
    by (auto simp: same_mesh_def mesh_inv_def)
  from r l1 assms(2) have "list_all2 (same_cell T s) (x ! i) (y ! i)"
    by (simp add: list_all2_nthD)
  then show ?thesis using l2 assms(3) by (simp add: list_all2_nthD)
qed

lemma stochastic_step_rel:
  assumes R: "same_mesh n1 n2 T (k - 1) x y" and k: "k < T"
  shows "rel_sum (=) (same_mesh n1 n2 T k)
           (stochastic_trace_step cfg forcing mesh n1 n2 rpl adr ss rnd k x)
           (stochastic_ARC_step cfg forcing mesh n1 n2 rpl adr ss rnd k y)"
proof (cases "mesh_fits mesh n1 n2")
  case False
  then show ?thesis by (simp add: stochastic_trace_step_def stochastic_ARC_step_def)
next
  case fits: True
  show ?thesis
  proof (cases "series_at forcing k")
    case (Inl e)
    then show ?thesis using fits by (simp add: stochastic_trace_step_def stochastic_ARC_step_def)
  next
    case (Inr f)
    let ?gt = "\<lambda>i j. case cell_update_stochastic cfg rpl adr (fst (mesh_entry mesh i j))
                 (snd (mesh_entry mesh i j) * ss) f
                 (rnd (k - 1) (fst (mesh_index mesh i j)) (snd (mesh_index mesh i j))) k
                 (fst (x ! i ! j) ! (k - 1)) (snd (x ! i ! j)) of
            Inl e \<Rightarrow> Inl e
          | Inr (v, c) \<Rightarrow> Inr ((fst (x ! i ! j))[k := v], c)"
    let ?ga = "\<lambda>i j. cell_update_stochastic cfg rpl adr (fst (mesh_entry mesh i j))
            (snd (mesh_entry mesh i j) * ss) f
            (rnd (k - 1) (fst (mesh_index mesh i j)) (snd (mesh_index mesh i j))) k
            (fst (y ! i ! j)) (snd (y ! i ! j))"
    have cells: "rel_sum (=) (same_cell T k) (?gt i j) (?ga i j)" if "i < n1" "j < n2" for i j
    proof -
      from same_mesh_cell[OF R that]
      have len: "length (fst (x ! i ! j)) = T" and v: "fst (x ! i ! j) ! (k - 1) = fst (y ! i ! j)"
        and c: "snd (x ! i ! j) = snd (y ! i ! j)"
        by (auto simp: same_cell_def)
      show ?thesis unfolding v c
        using len k by (auto simp: same_cell_def split: sum.splits prod.splits)
    qed
    have mm: "rel_sum (=) (list_all2 (list_all2 (same_cell T k)))
                (mesh_map n1 n2 ?gt) (mesh_map n1 n2 ?ga)"
      by (rule mesh_map_rel) (rule cells)
    have shape: "mesh_inv n1 n2 (\<lambda>p. True) m" if "mesh_map n1 n2 ?gt = Inr m" for m
      using that unfolding mesh_map_Inr_iff mesh_inv_def by simp
    have "rel_sum (=) (same_mesh n1 n2 T k) (mesh_map n1 n2 ?gt) (mesh_map n1 n2 ?ga)"
      using mm shape
      by (cases "mesh_map n1 n2 ?gt"; cases "mesh_map n1 n2 ?ga") (auto simp: same_mesh_def)
    then show ?thesis
      using fits Inr by (simp add: stochastic_trace_step_def stochastic_ARC_step_def)
  qed
qed

lemma list_all2_map_eq:
  assumes "list_all2 (\<lambda>p q. f p = g q) xs ys"
  shows "map f xs = map g ys"
  using assms by (induction rule: list_all2_induct) auto

lemma same_mesh_stacks:
  assumes "same_mesh n1 n2 T s x y"
  shows "map (map (spike_stack_of \<circ> snd)) y = map (map (spike_stack_of \<circ> snd)) x"
proof -
  from assms have "list_all2 (list_all2 (\<lambda>p q. (spike_stack_of \<circ> snd) p = (spike_stack_of \<circ> snd) q)) x y"
    unfolding same_mesh_def
    by (auto simp: same_cell_def elim!: list_all2_mono)
  then have "list_all2 (\<lambda>r r'. map (spike_stack_of \<circ> snd) r = map (spike_stack_of \<circ> snd) r') x y"
    by (auto elim!: list_all2_mono intro: list_all2_map_eq)
  then have "map (map (spike_stack_of \<circ> snd)) x = map (map (spike_stack_of \<circ> snd)) y"
    by (rule list_all2_map_eq)
  then show ?thesis by simp
qed

subsection \<open>The example runs\<close>

lemma kick_trace:
  "HPC_phi_6_sim_forcing_subspace [[(0, 0)]] 1 1 kick_cfg (\<lambda>k i j. 1) =
     Inr ([[[- 75, 25, 50]]], [[(replicate 5000 0)[0 := 1]]])"
  by (simp add: HPC_phi_6_sim_forcing_subspace_def kick_cfg_def Let_def upt_Suc0_3
      trace_step_def mesh_map_def mesh_fits_def mesh_entry_def cell_update_def init_neuron_def
      forcing_at_def
      kernel_defs log_spike_def int32_def stack_height_def numeral_3_eq_3)

lemma kick_ARC:
  "HPC_phi_6_sim_forcing_subspace_ARC [[(0, 0)]] 1 1 kick_cfg (\<lambda>k i j. 1) =
     Inr [[replicate 5000 0]]"
  by (simp add: HPC_phi_6_sim_forcing_subspace_ARC_def kick_cfg_def Let_def upt_0_3
      ARC_step_def mesh_map_def mesh_fits_def mesh_entry_def cell_update_def init_neuron_def
      forcing_at_def
      kernel_defs log_spike_def int32_def stack_height_def list_update_same_conv)



lemma kick_neurodynamic_trace:
  "HPC_phi_6_sim_neurodynamic_subspace [0, 0, 0] [[(50, 8)]] 1 1 kick_cfg (\<lambda>k i j. 1) =
     Inr ([[[- 75, 25, 50]]], [[(replicate 5000 0)[0 := 1]]])"
  by (simp add: HPC_phi_6_sim_neurodynamic_subspace_def kick_cfg_def Let_def upt_Suc0_3
      neurodynamic_trace_step_def mesh_map_def mesh_fits_def mesh_entry_def series_at_def
      cell_update_neurodynamic_def init_neuron_def
      kernel_defs log_spike_def int32_def stack_height_def numeral_3_eq_3)

lemma kick_neurodynamic_ARC:
  "HPC_phi_6_sim_neurodynamic_subspace_ARC [0, 0, 0] [[(50, 8)]] 1 1 kick_cfg (\<lambda>k i j. 1) =
     Inr [[replicate 5000 0]]"
  by (simp add: HPC_phi_6_sim_neurodynamic_subspace_ARC_def kick_cfg_def Let_def upt_0_3
      neurodynamic_ARC_step_def mesh_map_def mesh_fits_def mesh_entry_def series_at_def
      cell_update_neurodynamic_def init_neuron_def
      kernel_defs log_spike_def int32_def stack_height_def list_update_same_conv)

lemma kick_stochastic_trace:
  "HPC_phi_6_sim_stochastic_subspace [0, 0, 0] [[(0, 100)]] 1 1 kick_cfg (\<lambda>k i j. 1) =
     Inr ([[[- 75, 25, 50]]], [[(replicate 5000 0)[0 := 1]]])"
  by (simp add: HPC_phi_6_sim_stochastic_subspace_def kick_cfg_def Let_def upt_Suc0_3
      stochastic_trace_step_def mesh_map_def mesh_fits_def mesh_entry_def mesh_index_def
      series_at_def cell_update_stochastic_def init_neuron_def
      kernel_defs log_spike_def int32_def stack_height_def numeral_3_eq_3)

lemma logged_differs_from_empty: "(replicate 5000 (0::int))[0 := 1] \<noteq> replicate 5000 0"
proof
  assume "(replicate 5000 (0::int))[0 := 1] = replicate 5000 0"
  then have "(replicate 5000 (0::int))[0 := 1] ! 0 = replicate 5000 (0::int) ! 0" by simp
  then show False by simp
qed

subsection \<open>The cell at rest\<close>



subsection \<open>The run on the driven cell\<close>






subsection \<open>Phases, boundaries and the block\<close>

lemma upt_0_2: "[0..<2] = [0, Suc 0]"
  by (simp add: upt_rec)

lemma upt_0_3_one: "[0..<3] = [0, 1, 2]"
  by (simp add: upt_rec)

lemma arctan2_bounds: "- pi < arctan2 y x \<and> arctan2 y x \<le> pi"
proof -
  have a: "- (pi / 2) < arctan (y / x)" "arctan (y / x) < pi / 2"
    by (rule arctan_lbound, rule arctan_ubound)
  have p: "0 < pi" by simp
  consider "0 < x" | "x < 0" "0 \<le> y" | "x < 0" "y < 0" | "x = 0" by linarith
  then show ?thesis
  proof cases
    case 1
    then show ?thesis using a p by (simp add: arctan2_def)
  next
    case 2
    then have "y / x \<le> 0" by (simp add: divide_nonneg_neg)
    then have "arctan (y / x) \<le> 0" using arctan_le_zero_iff by blast
    then show ?thesis using 2 a p by (simp add: arctan2_def)
  next
    case 3
    then have "0 < y / x" by (simp add: divide_neg_neg)
    then have "0 < arctan (y / x)" using zero_less_arctan_iff by blast
    then show ?thesis using 3 a p by (simp add: arctan2_def)
  next
    case 4
    then show ?thesis by (simp add: arctan2_def) (use p in linarith)
  qed
qed

lemma phase_of_one: "theta_phase_time_series [Complex 1 0] = [pi / 2]"
  by (simp add: theta_phase_time_series_def arctan2_def)

lemma truncation_index_Some_iff:
  "truncation_index stack = Some t \<longleftrightarrow>
     t < shape_2 stack \<and> slice_all_zero stack t \<and> (\<forall>s<t. \<not> slice_all_zero stack s)"
  unfolding truncation_index_def find_Some_iff
  by auto

lemma truncation_example: "truncation_index [[[7, 0, 0]]] = Some 1"
  by (simp add: truncation_index_def shape_2_def slice_all_zero_def upt_0_3_one)

lemma cycle_boundaries_sorted: "sorted_wrt (<) (cycle_boundary_indices theta_phase)"
  unfolding cycle_boundary_indices_def Let_def
  by (rule sorted_wrt_filter) simp

lemma cycle_step_columns:
  assumes "cycle_step kde technique theta_phase boundaries stack i blk = Inr blk'"
    and "i = 0 \<or> (\<forall>row\<in>set blk. \<forall>col\<in>set row. length col = i)"
  shows "\<forall>row\<in>set blk'. \<forall>col\<in>set row. length col = Suc i"
proof (cases "i = 0")
  case True
  with assms(1) show ?thesis
    unfolding cycle_step_def by (auto split: sum.splits)
next
  case False
  with assms(2) have cols: "\<forall>row\<in>set blk. \<forall>col\<in>set row. length col = i" by simp
  from assms(1) False obtain slice where
    blk': "blk' = map (\<lambda>(brow, srow). map (\<lambda>(col, v). col @ [v]) (zip brow srow)) (zip blk slice)"
    unfolding cycle_step_def by (auto split: sum.splits)
  show ?thesis
  proof (intro ballI)
    fix row col assume "row \<in> set blk'" and c: "col \<in> set row"
    then obtain brow srow where z: "(brow, srow) \<in> set (zip blk slice)"
      and row: "row = map (\<lambda>(col, v). col @ [v]) (zip brow srow)"
      unfolding blk' by auto
    from c row obtain col0 v where "(col0, v) \<in> set (zip brow srow)" and col: "col = col0 @ [v]"
      by auto
    then have "col0 \<in> set brow" by (meson set_zip_leftD)
    moreover have "brow \<in> set blk" using z by (meson set_zip_leftD)
    ultimately have "length col0 = i" using cols by blast
    then show "length col = Suc i" using col by simp
  qed
qed

lemma run_cycles_columns:
  assumes "run_steps (cycle_step kde technique theta_phase boundaries stack) [0..<Suc n] [] = Inr blk"
  shows "\<forall>row\<in>set blk. \<forall>col\<in>set row. length col = Suc n"
  using assms
proof (induction n arbitrary: blk)
  case 0
  then have "cycle_step kde technique theta_phase boundaries stack 0 [] = Inr blk"
    by (simp split: sum.splits)
  from cycle_step_columns[OF this] show ?case by simp
next
  case (Suc n)
  have split: "[0..<Suc (Suc n)] = [0..<Suc n] @ [Suc n]" by simp
  from Suc.prems obtain mid where
    mid: "run_steps (cycle_step kde technique theta_phase boundaries stack) [0..<Suc n] [] = Inr mid"
    and last: "cycle_step kde technique theta_phase boundaries stack (Suc n) mid = Inr blk"
    unfolding split run_steps_append by (auto split: sum.splits)
  from cycle_step_columns[OF last] Suc.IH[OF mid] show ?case by simp
qed

subsection \<open>An example analysis and an example pipeline\<close>

lemma phase_example:
  "theta_phase_time_series [Complex 1 0, Complex 0 1, Complex 0 (- 1)] = [pi / 2, pi, 0]"
  by (simp add: theta_phase_time_series_def arctan2_def)

lemma boundaries_example: "cycle_boundary_indices [pi / 2, pi, 0] = [1]"
  by (simp add: cycle_boundary_indices_def np_diff_def Let_def upt_0_2)

lemma truncate_example: "truncate_stack [[[1, 2, 0]]] = Inr [[[1, 2]]]"
  by (simp add: truncate_stack_def truncation_index_def shape_2_def slice_all_zero_def upt_0_3_one)

lemma analysis_example:
  "HPC_phi_phase_analysis (\<lambda>d. None) [[[1, 2, 0]]]
     [Complex 1 0, Complex 0 1, Complex 0 (- 1)] ''mean'' = Inr ([[[0, pi / 2]]], [1])"
  by (simp add: HPC_phi_phase_analysis_def phase_example boundaries_example truncate_example
      Let_def upt_0_2 cycle_step_def cell_cycle_phi_def phase_at_def
      central_tendency_selector_def np_mean_def)

lemma negative_pipeline_eq:
  "negative_pipeline = Inr \<lparr> sim_spec = negative_cfg, num_timesteps = - 3, num_subsets = 2,
     subsets = [([20, 50], ''theta_amplitude''), ([20, 50], ''interference_amplitude'')],
     ARC = True \<rparr>"
  by (simp add: negative_pipeline_def PipelineManager_init_def add_parameter_subset_def
      np_linspace_def negative_cfg_def kick_cfg_def py_int_def upt_0_2)

subsection \<open>The run on the cell above threshold\<close>

lemma busy_fire:
  assumes "spike_state_of c" "refractory_of c = 0 \<or> refractory_of c = 1"
    "0 \<le> stack_topography_of c" "stack_topography_of c < int (length (spike_stack_of c))"
  shows "\<exists>v' c'. cell_update busy_cfg 0 adr wc forcing r step v c = Inr (v', c') \<and>
           spike_state_of c' \<and> refractory_of c' = 1 \<and>
           length (spike_stack_of c') = length (spike_stack_of c) \<and>
           stack_topography_of c' = stack_topography_of c + 1"
  using assms
  by (auto simp: cell_update_def busy_cfg_def kick_cfg_def Let_def condit_add_def
      condit_assign_bool_def condit_assign_num_def log_spike_def stack_topography_flatten_def
      integer_add_def)

lemma busy_overflow:
  assumes "spike_state_of c" "refractory_of c = 0 \<or> refractory_of c = 1"
    "stack_topography_of c = int (length (spike_stack_of c))"
  shows "cell_update busy_cfg 0 adr wc forcing r step v c = Inl OutOfBounds"
  using assms
  by (auto simp: cell_update_def busy_cfg_def kick_cfg_def Let_def condit_add_def
      condit_assign_bool_def condit_assign_num_def log_spike_def stack_topography_flatten_def
      integer_add_def)

lemma init_neuron_busy:
  "init_neuron busy_cfg 0 = \<lparr> xi_of = 0, W_of = 0, spike_state_of = True, refractory_of = 0,
      spike_stack_of = replicate stack_height 0, stack_topography_of = 0 \<rparr>"
  by (simp add: init_neuron_def busy_cfg_def kick_cfg_def Let_def kernel_defs)

lemma busy_run:
  "s \<le> 5000 \<Longrightarrow>
   \<exists>p. run_steps (trace_step busy_cfg [[amps]] (Suc 0) (Suc 0) 0 adr wc rnd) [1..<Suc s]
          [[(Vt0, init_neuron busy_cfg 0)]] = Inr [[p]] \<and> busy_inv s p"
proof (induction s)
  case 0
  show ?case by (simp add: busy_inv_def init_neuron_busy stack_height_def)
next
  case (Suc s)
  let ?f = "trace_step busy_cfg [[amps]] (Suc 0) (Suc 0) 0 adr wc rnd"
  from Suc obtain p where run: "run_steps ?f [1..<Suc s] [[(Vt0, init_neuron busy_cfg 0)]] = Inr [[p]]"
    and inv: "busy_inv s p" by auto
  obtain Vt c where p: "p = (Vt, c)" by (cases p)
  have split: "[1..<Suc (Suc s)] = [1..<Suc s] @ [Suc s]" by simp
  have c: "spike_state_of c" "refractory_of c = 0 \<or> refractory_of c = 1"
    "stack_topography_of c = int s" "length (spike_stack_of c) = 5000"
    using inv p by (auto simp: busy_inv_def)
  have t: "0 \<le> stack_topography_of c" "stack_topography_of c < int (length (spike_stack_of c))"
    using c Suc.prems by auto
  from busy_fire[OF c(1,2) t, of adr wc "forcing_at busy_cfg amps (Suc s)"
      "rnd (Suc s - Suc 0) 0 0" "Suc s" "Vt ! (Suc s - Suc 0)"]
  obtain v' c' where cu: "cell_update busy_cfg 0 adr wc (forcing_at busy_cfg amps (Suc s))
      (rnd (Suc s - Suc 0) 0 0) (Suc s) (Vt ! (Suc s - Suc 0)) c = Inr (v', c')"
    and c': "spike_state_of c'" "refractory_of c' = 1"
      "length (spike_stack_of c') = length (spike_stack_of c)"
      "stack_topography_of c' = stack_topography_of c + 1"
    by blast
  have step: "?f (Suc s) [[p]] = Inr [[(Vt[Suc s := v'], c')]]"
    unfolding p trace_step_single cu by simp
  have "busy_inv (Suc s) (Vt[Suc s := v'], c')"
    using c c' by (simp add: busy_inv_def)
  then show ?case
    unfolding split run_steps_append run using step by simp
qed

section \<open>Claims on the simulation\<close>

subsection \<open>C1\<close>

text \<open>
  C1. The claim: with the same configuration and the same random draws, the
  trace-preserving and the trace-free kernel log the same step indices for every cell.
  The two loops differ: the trace-preserving one runs \<open>range(1, num_timesteps)\<close>, the
  trace-free one \<open>range(num_timesteps)\<close>, so the latter makes one more update and logs
  each spike one step earlier. On \<open>kick_cfg\<close>, a one-cell mesh without forcing and every
  draw equal to 1, the first update takes the cell over the threshold: the
  trace-preserving kernel logs step 1, the trace-free kernel stores step 0 and returns a
  column of zeros.
\<close>

theorem forcing_modes_log_differently:
  "HPC_phi_6_sim_forcing_subspace [[(0, 0)]] 1 1 kick_cfg (\<lambda>k i j. 1) =
     Inr ([[[- 75, 25, 50]]], [[(replicate 5000 0)[0 := 1]]]) \<and>
   HPC_phi_6_sim_forcing_subspace_ARC [[(0, 0)]] 1 1 kick_cfg (\<lambda>k i j. 1) =
     Inr [[replicate 5000 0]] \<and>
   (replicate 5000 (0::int))[0 := 1] \<noteq> replicate 5000 0"
  using kick_trace kick_ARC logged_differs_from_empty by simp

subsection \<open>C2\<close>




text \<open>
  The overflow does not depend on how the voltage is integrated: on \<open>busy_cfg\<close> the
  voltage is clamped at every step, a spike is logged at every step whatever the forcing
  amplitudes and the draws are, and the store of step 5001 is outside the column.
\<close>

theorem busy_cell_overflows:
  "HPC_phi_6_sim_forcing_subspace [[amps]] 1 1 busy_cfg rnd = Inl OutOfBounds"
proof -
  define adr :: real where "adr = 4 / 5"
  define wc :: real where "wc = 100"
  define Vt0 :: "real list" where "Vt0 = replicate 5002 (- 30)"
  let ?f = "trace_step busy_cfg [[amps]] (Suc 0) (Suc 0) 0 adr wc rnd"
  from busy_run[of 5000 amps adr wc rnd Vt0] obtain p
    where run: "run_steps ?f [1..<Suc 5000] [[(Vt0, init_neuron busy_cfg 0)]] = Inr [[p]]"
      and inv: "busy_inv 5000 p"
    by auto
  obtain Vt c where p: "p = (Vt, c)" by (cases p)
  have c: "spike_state_of c" "refractory_of c = 0 \<or> refractory_of c = 1"
    "stack_topography_of c = int (length (spike_stack_of c))"
    using inv p by (auto simp: busy_inv_def)
  have step: "?f 5001 [[p]] = Inl OutOfBounds"
    unfolding p trace_step_single busy_overflow[OF c] by simp
  have split: "[1..<5002] = [1..<Suc 5000] @ [5001]"
    using upt_Suc_append[of 1 5001] by simp
  have "run_steps ?f [1..<5002] [[(Vt0, init_neuron busy_cfg 0)]] = Inl OutOfBounds"
    unfolding split run_steps_append run using step by simp
  then show ?thesis
    by (simp add: HPC_phi_6_sim_forcing_subspace_def Let_def hadamard_def adr_def wc_def Vt0_def)
       (simp add: busy_cfg_def kick_cfg_def)
qed

subsection \<open>C7\<close>




subsection \<open>C10\<close>



section \<open>Claims on the analysis\<close>

subsection \<open>C3\<close>

text \<open>
  C3, as amended. When the loop finds one, the span used for the analysis is the first
  index along the slot axis of the spike stack (axis 2, the ordinal of a spike in a cell's
  log, not a time step) at which the entry of every cell is zero; the columns are cut to
  the slots before it, and the cycles are assigned on the cut stack.
\<close>

theorem truncation_is_first_all_zero_slot:
  assumes "truncation_index stack = Some t"
  shows "t < shape_2 stack \<and> slice_all_zero stack t \<and> (\<forall>s<t. \<not> slice_all_zero stack s) \<and>
         truncate_stack stack = Inr (map (map (take t)) stack) \<and>
         HPC_phi_phase_analysis kde stack analytic_signal technique =
           (let theta_phase = theta_phase_time_series analytic_signal;
                boundaries = cycle_boundary_indices theta_phase
            in case run_steps (cycle_step kde technique theta_phase boundaries
                                 (map (map (take t)) stack))
                      [0..<length boundaries + 1] [] of
                 Inl err \<Rightarrow> Inl err
               | Inr cycle_phi_block \<Rightarrow> Inr (cycle_phi_block, boundaries))"
  using assms truncation_index_Some_iff[of stack t]
  by (simp add: truncate_stack_def HPC_phi_phase_analysis_def Let_def)

theorem truncation_is_first_all_zero_slot_witness:
  "truncation_index [[[7, 0, 0]]] = Some 1 \<and>
   slice_all_zero [[[7, 0, 0]]] 1 \<and> \<not> slice_all_zero [[[7, 0, 0]]] 0 \<and>
   truncate_stack [[[7, 0, 0]]] = Inr [[[7]]]"
  using truncation_is_first_all_zero_slot[OF truncation_example] truncation_example
  by simp

text \<open>
  The claim as stated fails on a single cell that spiked once, at step 7: the span is 1,
  and at the time step 1 the cell still reports a further spike (so it does at step 7);
  the first time step from which no cell reports a spike is 8.
\<close>

theorem truncation_index_not_time_step:
  "truncation_index [[[7, 0, 0]]] = Some 1 \<and>
   \<not> spec_no_further_spikes [[[7, 0, 0]]] 1 \<and>
   \<not> spec_no_further_spikes [[[7, 0, 0]]] 7 \<and>
   spec_no_further_spikes [[[7, 0, 0]]] 8"
  using truncation_example by (simp add: spec_no_further_spikes_def)

subsection \<open>C5\<close>

text \<open>
  C5. The claim: a cycle count above the number of available cycles gives the same RMQ
  array as the selector \<open>'all'\<close>. With \<open>'all'\<close> the test \<open>num_cycles <= 0\<close> compares a
  string with an integer and raises, on every block, before the comparison with \<open>'all'\<close>
  is reached.
\<close>

theorem RMQ_all_raises:
  "HPC_phi_compute_RMQ (PyStr ''all'') cycle_phi_block = Inl TypeError"
  by (simp add: HPC_phi_compute_RMQ_def py_le_zero_def)

text \<open>
  For integers the clamp is as described: a count above the number of available cycles
  gives the array of a non-positive count, the RMQ over all cycles.
\<close>

theorem RMQ_clamps_to_available:
  assumes "int (shape_2 cycle_phi_block) < n"
  shows "HPC_phi_compute_RMQ (PyInt n) cycle_phi_block =
           HPC_phi_compute_RMQ (PyInt 0) cycle_phi_block \<and>
         HPC_phi_compute_RMQ (PyInt n) cycle_phi_block =
           Inr (map (map (cell_RMQ (shape_2 cycle_phi_block))) cycle_phi_block)"
  using assms
  by (simp add: HPC_phi_compute_RMQ_def py_le_zero_def py_eq_all_def Let_def min_def)

theorem RMQ_clamps_to_available_witness:
  "int (shape_2 [[[1, 2 :: real]]]) < 5 \<and>
   HPC_phi_compute_RMQ (PyInt 5) [[[1, 2]]] = HPC_phi_compute_RMQ (PyInt 0) [[[1, 2]]] \<and>
   HPC_phi_compute_RMQ (PyInt 5) [[[1, 2]]] = Inr [[Some (- 1)]]"
proof -
  have h: "int (shape_2 [[[1, 2 :: real]]]) < 5" by (simp add: shape_2_def)
  have v: "map (map (cell_RMQ (shape_2 [[[1, 2 :: real]]]))) [[[1, 2]]] = [[Some (- 1)]]"
    by (simp add: shape_2_def cell_RMQ_def masked_diff_def masked_mean_def np_mean_def)
  from RMQ_clamps_to_available[OF h]
  have "HPC_phi_compute_RMQ (PyInt 5) [[[1, 2]]] = HPC_phi_compute_RMQ (PyInt 0) [[[1, 2]]]"
    and "HPC_phi_compute_RMQ (PyInt 5) [[[1, 2]]] = Inr [[Some (- 1)]]"
    unfolding v by blast+
  with h show ?thesis by blast
qed

subsection \<open>C6\<close>

text \<open>
  C6. Whenever the analysis returns, the cycle boundaries are strictly increasing and
  their number is one less than the length of every cell's sequence in the block of
  per-cycle phases (the size of its third dimension, which is at least 1).
\<close>

theorem cycle_boundaries_increasing_and_counted:
  assumes "HPC_phi_phase_analysis kde stack analytic_signal technique =
             Inr (cycle_phi_block, boundaries)"
  shows "sorted_wrt (<) boundaries \<and>
         (\<forall>row\<in>set cycle_phi_block. \<forall>col\<in>set row.
            length boundaries = length col - 1 \<and> 0 < length col)"
proof -
  from assms obtain trunc where
    b: "boundaries = cycle_boundary_indices (theta_phase_time_series analytic_signal)"
    and run: "run_steps (cycle_step kde technique (theta_phase_time_series analytic_signal)
                boundaries trunc) [0..<Suc (length boundaries)] [] = Inr cycle_phi_block"
    unfolding HPC_phi_phase_analysis_def Let_def
    by (auto split: sum.splits)
  from run_cycles_columns[OF run] cycle_boundaries_sorted b
  show ?thesis by simp
qed

theorem cycle_boundaries_increasing_and_counted_witness:
  "HPC_phi_phase_analysis (\<lambda>d. None) [[[1, 2, 0]]]
     [Complex 1 0, Complex 0 1, Complex 0 (- 1)] ''mean'' = Inr ([[[0, pi / 2]]], [1]) \<and>
   sorted_wrt (<) [1::nat] \<and> length [1::nat] = length [0, pi / 2 :: real] - 1"
  using cycle_boundaries_increasing_and_counted[OF analysis_example] analysis_example by simp

subsection \<open>C8\<close>

text \<open>
  C8. For every analytic signal the phase series has one entry per sample: the angle
  \<open>arctan2(imag, real)\<close> shifted into \<open>[0, 2 pi)\<close>, then moved by \<open>- 3 pi / 2\<close> and wrapped
  again; every entry lies in \<open>[0, 2 pi)\<close>.
\<close>

theorem theta_phase_in_range:
  "length (theta_phase_time_series analytic_signal) = length analytic_signal \<and>
   (\<forall>k<length analytic_signal.
      let a = arctan2 (Im (analytic_signal ! k)) (Re (analytic_signal ! k));
          s = (if a < 0 then a + 2 * pi else a)
      in 0 \<le> s \<and> s < 2 * pi \<and>
         theta_phase_time_series analytic_signal ! k =
           (if s - 3 * pi / 2 < 0 then s - 3 * pi / 2 + 2 * pi else s - 3 * pi / 2) \<and>
         0 \<le> theta_phase_time_series analytic_signal ! k \<and>
         theta_phase_time_series analytic_signal ! k < 2 * pi)"
proof (intro conjI allI impI)
  show "length (theta_phase_time_series analytic_signal) = length analytic_signal"
    by (simp add: theta_phase_time_series_def)
next
  fix k assume k: "k < length analytic_signal"
  define a where "a = arctan2 (Im (analytic_signal ! k)) (Re (analytic_signal ! k))"
  define s where "s = (if a < 0 then a + 2 * pi else a)"
  have ab: "- pi < a" "a \<le> pi" using arctan2_bounds by (simp_all add: a_def)
  have p: "0 < pi" by simp
  have s: "0 \<le> s" "s < 2 * pi" using ab p by (auto simp: s_def)
  have eq: "theta_phase_time_series analytic_signal ! k =
           (if s - 3 * pi / 2 < 0 then s - 3 * pi / 2 + 2 * pi else s - 3 * pi / 2)"
    using k by (simp add: theta_phase_time_series_def s_def a_def)
  have r: "0 \<le> theta_phase_time_series analytic_signal ! k"
    "theta_phase_time_series analytic_signal ! k < 2 * pi"
    unfolding eq using s p by (auto split: if_splits)
  show "let a = arctan2 (Im (analytic_signal ! k)) (Re (analytic_signal ! k));
          s = (if a < 0 then a + 2 * pi else a)
      in 0 \<le> s \<and> s < 2 * pi \<and>
         theta_phase_time_series analytic_signal ! k =
           (if s - 3 * pi / 2 < 0 then s - 3 * pi / 2 + 2 * pi else s - 3 * pi / 2) \<and>
         0 \<le> theta_phase_time_series analytic_signal ! k \<and>
         theta_phase_time_series analytic_signal ! k < 2 * pi"
    unfolding Let_def a_def[symmetric] s_def[symmetric] using s eq r by simp
qed

theorem theta_phase_in_range_witness:
  "theta_phase_time_series [Complex 1 0] ! 0 = pi / 2 \<and>
   0 \<le> theta_phase_time_series [Complex 1 0] ! 0 \<and>
   theta_phase_time_series [Complex 1 0] ! 0 < 2 * pi"
  using theta_phase_in_range[of "[Complex 1 0]"] phase_of_one
  by (simp add: Let_def)

subsection \<open>C9\<close>

text \<open>
  C9. With the technique \<open>mean\<close> the estimator returns 0.2 on \<open>[0.1, 0.2, 0.3]\<close>; on a single
  sample (1.5, or any \<open>x\<close>) it returns the sample under every technique selector, the
  density-mode technique included, whatever the external fit would return.
\<close>

theorem central_tendency_examples:
  "central_tendency_selector kde [1 / 10, 2 / 10, 3 / 10] ''mean'' = Some (2 / 10) \<and>
   central_tendency_selector kde [3 / 2] technique = Some (3 / 2) \<and>
   central_tendency_selector kde [x] technique = Some x"
  by (simp add: central_tendency_selector_def np_mean_def np_median_def)

section \<open>Claims on the pipeline\<close>

subsection \<open>C4\<close>

text \<open>
  C4, as amended. A time step of 0 makes the constructor raise, and for every pipeline
  whose count of parameter subsets is not two \<open>execute_pipeline\<close> raises (while it builds
  the simulation name, or at the test of the count) whatever the kernels, the mesh type
  and the draws are: no simulation starts. The sign of the duration and of the time step
  is not tested.
\<close>

theorem pipeline_rejects_wrong_subset_count:
  "(dt cfg = 0 \<longrightarrow> PipelineManager_init cfg arc = Inl ZeroDivisionError) \<and>
   (num_subsets p \<noteq> 2 \<longrightarrow>
      execute_pipeline other_kernels p mesh_type rnd \<in>
        {Inl AttributeError, Inl IndexError, Inl PyException})"
  by (simp add: PipelineManager_init_def execute_pipeline_def)

theorem pipeline_rejects_wrong_subset_count_witness:
  "PipelineManager_init (kick_cfg \<lparr> dt := 0 \<rparr>) True = Inl ZeroDivisionError \<and>
   num_subsets one_subset_pipeline \<noteq> 2 \<and>
   execute_pipeline (\<lambda>m p. Inl PyException) one_subset_pipeline ''forcing'' (\<lambda>k i j. 0) =
     Inl AttributeError"
  using pipeline_rejects_wrong_subset_count[of "kick_cfg \<lparr> dt := 0 \<rparr>" True one_subset_pipeline
      "\<lambda>m p. Inl PyException" "''forcing''" "\<lambda>k i j. 0"]
  by (simp add: one_subset_pipeline_def execute_pipeline_def kick_cfg_def)

text \<open>
  The claim as stated fails on a duration of -3 with a time step of 1: with two subsets
  and the \<open>ARC\<close> flag set, the trace-free kernel is called, runs its loop over an empty
  range and returns an all-zero spike stack for the 2 by 2 mesh.
\<close>

theorem pipeline_runs_negative_duration:
  "simulation_duration negative_cfg < 0 \<and>
   (case negative_pipeline of
      Inl e \<Rightarrow> Inl e
    | Inr p \<Rightarrow> execute_pipeline (\<lambda>m p. Inl PyException) p ''forcing'' (\<lambda>k i j. 0)) =
     Inr [[replicate 5000 0, replicate 5000 0], [replicate 5000 0, replicate 5000 0]]"
  by (simp add: negative_pipeline_eq execute_pipeline_def init_forcing_def)
     (simp add: negative_cfg_def kick_cfg_def HPC_phi_6_sim_forcing_subspace_ARC_def Let_def
       py_int_def upt_0_2 init_neuron_def kernel_defs stack_height_def)

section \<open>Further properties\<close>

text \<open>
  The invariant of the spike log in the data model: in a run of the trace-preserving
  kernel that returns, of at most \<open>2^31\<close> steps, the logged step indices of every cell
  (the nonzero entries of its column) increase strictly.
\<close>

theorem logged_steps_strictly_increasing:
  assumes run: "HPC_phi_6_sim_forcing_subspace mesh n1 n2 cfg rnd = Inr (Vt, S)"
    and T: "py_int (simulation_duration cfg / dt cfg) \<le> 2147483648"
    and i: "i < n1" and j: "j < n2"
  shows "sorted_wrt (<) (filter (\<lambda>e. e \<noteq> 0) (S ! i ! j))"
proof -
  define T where "T = py_int (simulation_duration cfg / dt cfg)"
  define rpl where "rpl = py_int (refractory_period_duration cfg / dt cfg)"
  define st0 where "st0 = map (\<lambda>i. map (\<lambda>j.
                      (replicate (nat T) (hadamard 1 (rest_V cfg)),
                       init_neuron cfg rpl)) [0..<n2]) [0..<n1]"
  define f where "f = trace_step cfg mesh n1 n2 rpl
           (adaptation_decay_constant cfg / adaptation_time_constant cfg)
           (OU_sigma cfg * sqrt (dt cfg * OU_time_constant cfg)) rnd"
  define P where "P = (\<lambda>k. mesh_inv n1 n2
     (\<lambda>p :: real list \<times> neuron. log_inv T (snd p) \<and> log_sorted (k - 1) (snd p)))"
  from run obtain st where
    Tpos: "0 < T" and rs: "run_steps f [1..<nat T] st0 = Inr st"
    and S: "S = map (map (spike_stack_of \<circ> snd)) st"
    unfolding HPC_phi_6_sim_forcing_subspace_def Let_def T_def rpl_def st0_def f_def
    by (auto split: if_splits sum.splits)
  have P1: "P 1 st0"
    unfolding P_def st0_def by (rule mesh_inv_init) (simp add: log_inv_init log_sorted_init Tpos)
  have le: "1 \<le> nat T" using Tpos by simp
  have "P (nat T) st"
  proof (rule run_steps_indexed[where P = P, OF rs le P1])
    fix k x y
    assume k: "1 \<le> k" "k < nat T" and x: "P k x" and step: "f k x = Inr y"
    show "P (Suc k) y"
      unfolding P_def mesh_inv_def
    proof (intro conjI allI impI)
      fix a b assume a: "a < n1" and b: "b < n2"
      from trace_step_cell[OF step[unfolded f_def] a b]
      obtain v c where cu: "cell_update cfg rpl
           (adaptation_decay_constant cfg / adaptation_time_constant cfg)
           (OU_sigma cfg * sqrt (dt cfg * OU_time_constant cfg))
           (forcing_at cfg (mesh_entry mesh a b) k) (rnd (k - 1) a b) k
           (fst (x ! a ! b) ! (k - 1)) (snd (x ! a ! b)) = Inr (v, c)"
        and eq: "y ! a ! b = ((fst (x ! a ! b))[k := v], c)"
        by (auto split: sum.splits prod.splits)
      have inv: "log_inv T (snd (x ! a ! b))" "log_sorted (k - 1) (snd (x ! a ! b))"
        using x a b by (auto simp: P_def mesh_inv_def)
      have kb: "k - 1 < k" "int k < T" "1 \<le> k" using k by auto
      from log_inv_step[OF cu inv(1) kb(3) kb(2)] T
      show "log_inv T (snd (y ! a ! b))" by (simp add: eq T_def)
      from log_sorted_step[OF cu inv(1) inv(2) kb(1) kb(2)] T
      show "log_sorted (Suc k - 1) (snd (y ! a ! b))" by (simp add: eq T_def)
    next
      show "length y = n1" using trace_step_shape(1)[OF step[unfolded f_def]] .
    next
      fix a assume "a < n1"
      then show "length (y ! a) = n2"
        using trace_step_shape(2)[OF step[unfolded f_def]] by simp
    qed
  qed
  then have c: "log_inv T (snd (st ! i ! j))" "log_sorted (nat T - 1) (snd (st ! i ! j))"
    and l1: "length st = n1" and l2: "length (st ! i) = n2"
    using i j by (auto simp: P_def mesh_inv_def)
  have Sij: "S ! i ! j = spike_stack_of (snd (st ! i ! j))"
    using S i j l1 l2 by simp
  let ?c = "snd (st ! i ! j)"
  let ?h = "nat (stack_topography_of ?c)"
  have len: "length (S ! i ! j) = stack_height" using c(1) Sij by (simp add: log_inv_def)
  have h: "?h \<le> stack_height" using c(1) by (auto simp: log_inv_def)
  have block: "\<forall>k<stack_height. if k < ?h
       then 1 \<le> S ! i ! j ! k \<and> S ! i ! j ! k < T else S ! i ! j ! k = 0"
  proof (intro allI impI)
    fix k assume "k < stack_height"
    then have "if int k < stack_topography_of ?c
        then 1 \<le> spike_stack_of ?c ! k \<and> spike_stack_of ?c ! k < T else spike_stack_of ?c ! k = 0"
      using c(1) by (simp add: log_inv_def)
    moreover have "k < ?h \<longleftrightarrow> int k < stack_topography_of ?c" by auto
    ultimately show "if k < ?h
       then 1 \<le> S ! i ! j ! k \<and> S ! i ! j ! k < T else S ! i ! j ! k = 0"
      unfolding Sij by simp
  qed
  have "filter (\<lambda>e. e \<noteq> 0) (S ! i ! j) = take ?h (S ! i ! j)"
    by (rule masked_block[OF len h block])
  moreover have "sorted_wrt (<) (take ?h (S ! i ! j))"
    using c(2) h len by (intro sorted_block) (auto simp: log_sorted_def Sij)
  ultimately show ?thesis by simp
qed

theorem logged_steps_strictly_increasing_witness:
  "HPC_phi_6_sim_forcing_subspace [[(0, 0)]] 1 1 kick_cfg (\<lambda>k i j. 1) =
     Inr ([[[- 75, 25, 50]]], [[(replicate 5000 0)[0 := 1]]]) \<and>
   sorted_wrt (<) (filter (\<lambda>e. e \<noteq> 0) ([[(replicate 5000 (0::int))[0 := 1]]] ! 0 ! 0))"
proof -
  have T: "py_int (simulation_duration kick_cfg / dt kick_cfg) \<le> 2147483648"
    by (simp add: kick_cfg_def)
  have h: "(0::nat) < 1" by simp
  from logged_steps_strictly_increasing[OF kick_trace T h h]
  show ?thesis using kick_trace by blast
qed

text \<open>
  The two stochastic kernels both loop over \<open>range(1, num_timesteps)\<close>. With at least one
  step, the same series, mesh, configuration and draws, the trace-free kernel returns the
  spike stack of the trace-preserving kernel, or fails with the same error.
\<close>

theorem stochastic_modes_log_identically:
  assumes T: "1 \<le> py_int (simulation_duration cfg / dt cfg)"
  shows "HPC_phi_6_sim_stochastic_subspace_ARC forcing mesh n1 n2 cfg rnd =
         (case HPC_phi_6_sim_stochastic_subspace forcing mesh n1 n2 cfg rnd of
            Inl e \<Rightarrow> Inl e
          | Inr (Vt, S) \<Rightarrow> Inr S)"
proof -
  define T where "T = py_int (simulation_duration cfg / dt cfg)"
  define rpl where "rpl = py_int (refractory_period_duration cfg / dt cfg)"
  define adr where "adr = adaptation_decay_constant cfg / adaptation_time_constant cfg"
  define ss where "ss = sqrt (dt cfg * OU_time_constant cfg)"
  define st0 where "st0 = map (\<lambda>i. map (\<lambda>j.
                      (replicate (nat T) (hadamard 1 (rest_V cfg)),
                       init_neuron cfg rpl)) [0..<n2]) [0..<n1]"
  define sa0 where "sa0 = map (\<lambda>i. map (\<lambda>j.
                      (hadamard 1 (rest_V cfg), init_neuron cfg rpl)) [0..<n2]) [0..<n1]"
  have Tpos: "0 < nat T" using T by (simp add: T_def)
  have R0: "same_mesh n1 n2 (nat T) 0 st0 sa0"
    unfolding same_mesh_def st0_def sa0_def
    using Tpos
    by (simp add: mesh_inv_def list_all2_map1 list_all2_map2 list_all2_same same_cell_def)
  have rel: "rel_sum (=) (same_mesh n1 n2 (nat T) (nat T - 1))
               (run_steps (stochastic_trace_step cfg forcing mesh n1 n2 rpl adr ss rnd) [1..<nat T] st0)
               (run_steps (stochastic_ARC_step cfg forcing mesh n1 n2 rpl adr ss rnd) [1..<nat T] sa0)"
  proof (rule run_steps_rel[where R = "\<lambda>k. same_mesh n1 n2 (nat T) (k - 1)"])
    fix k x y assume "1 \<le> k" "k < nat T" "same_mesh n1 n2 (nat T) (k - 1) x y"
    from stochastic_step_rel[OF this(3,2)]
    show "rel_sum (=) (same_mesh n1 n2 (nat T) (Suc k - 1))
            (stochastic_trace_step cfg forcing mesh n1 n2 rpl adr ss rnd k x)
            (stochastic_ARC_step cfg forcing mesh n1 n2 rpl adr ss rnd k y)"
      by simp
  next
    show "same_mesh n1 n2 (nat T) (1 - 1) st0 sa0" using R0 by simp
  next
    show "1 \<le> nat T" using Tpos by simp
  qed
  have runs: "(case run_steps (stochastic_ARC_step cfg forcing mesh n1 n2 rpl adr ss rnd) [1..<nat T] sa0 of
                 Inl e \<Rightarrow> Inl e
               | Inr st \<Rightarrow> Inr (map (map (spike_stack_of \<circ> snd)) st)) =
              (case run_steps (stochastic_trace_step cfg forcing mesh n1 n2 rpl adr ss rnd) [1..<nat T] st0 of
                 Inl e \<Rightarrow> Inl e
               | Inr st \<Rightarrow> Inr (map (map (spike_stack_of \<circ> snd)) st))"
    using rel same_mesh_stacks
    by (cases "run_steps (stochastic_trace_step cfg forcing mesh n1 n2 rpl adr ss rnd) [1..<nat T] st0";
        cases "run_steps (stochastic_ARC_step cfg forcing mesh n1 n2 rpl adr ss rnd) [1..<nat T] sa0")
       auto
  have T1: "\<not> T < 0" "T \<noteq> 0" using T by (simp_all add: T_def)
  show ?thesis
    unfolding HPC_phi_6_sim_stochastic_subspace_ARC_def HPC_phi_6_sim_stochastic_subspace_def Let_def
    unfolding T_def[symmetric] rpl_def[symmetric] adr_def[symmetric] ss_def[symmetric]
      st0_def[symmetric] sa0_def[symmetric]
    using T1 runs
    by (simp split: sum.splits)
qed

theorem stochastic_modes_log_identically_witness:
  "1 \<le> py_int (simulation_duration kick_cfg / dt kick_cfg) \<and>
   HPC_phi_6_sim_stochastic_subspace [0, 0, 0] [[(0, 100)]] 1 1 kick_cfg (\<lambda>k i j. 1) =
     Inr ([[[- 75, 25, 50]]], [[(replicate 5000 0)[0 := 1]]]) \<and>
   HPC_phi_6_sim_stochastic_subspace_ARC [0, 0, 0] [[(0, 100)]] 1 1 kick_cfg (\<lambda>k i j. 1) =
     Inr [[(replicate 5000 0)[0 := 1]]]"
proof -
  have T: "1 \<le> py_int (simulation_duration kick_cfg / dt kick_cfg)"
    by (simp add: kick_cfg_def)
  from stochastic_modes_log_identically[OF T, of "[0, 0, 0]" "[[(0, 100)]]" 1 1 "\<lambda>k i j. 1"]
  show ?thesis using T kick_stochastic_trace by simp
qed

text \<open>
  The trace-free neurodynamic kernel loops over \<open>range(num_timesteps)\<close>, the
  trace-preserving one over \<open>range(1, num_timesteps)\<close>. On \<open>kick_cfg\<close>, a one-cell mesh
  with the adaptation constants 50 and 8, a forcing series of zeros and every draw equal
  to 1, the trace-preserving kernel logs step 1, the trace-free kernel stores step 0 and
  returns a column of zeros.
\<close>

theorem neurodynamic_modes_log_differently:
  "HPC_phi_6_sim_neurodynamic_subspace [0, 0, 0] [[(50, 8)]] 1 1 kick_cfg (\<lambda>k i j. 1) =
     Inr ([[[- 75, 25, 50]]], [[(replicate 5000 0)[0 := 1]]]) \<and>
   HPC_phi_6_sim_neurodynamic_subspace_ARC [0, 0, 0] [[(50, 8)]] 1 1 kick_cfg (\<lambda>k i j. 1) =
     Inr [[replicate 5000 0]] \<and>
   (replicate 5000 (0::int))[0 := 1] \<noteq> replicate 5000 0"
  using kick_neurodynamic_trace kick_neurodynamic_ARC logged_differs_from_empty by simp

end
